theory Spec2Isabelle
  imports Complex_Main "HOL-Library.AList"
begin

text \<open>
  A model of the test orchestration scripts of the repository: port allocation and node
  descriptors (malicious\_node\_test.py, network\_manager.py), starting and stopping node
  processes, the staged runs and their teardown (malicious\_node\_test.py,
  heterogeneous\_network\_test\_local.py), health sampling (the local and the Docker variant
  of the heterogeneous test), the attack tallies and the security report
  (malicious\_attack\_demo.py, simple\_malicious\_test.py).

  The node processes, the host's ports and the HTTP answers are parameters of the model.
  Logging, sleeping, timestamps, the files and directories the scripts create, and the two
  host-level floats of a sample are left out. Where two scripts have a function of the
  same name, the one modelled second carries a prefix: \<open>nm_\<close> for network\_manager.py,
  \<open>mnt_\<close> for malicious\_node\_test.py, \<open>local_\<close> and \<open>docker_\<close> for the two variants of
  the heterogeneous test.
\<close>

section \<open>Port allocation\<close>

text \<open>
  The scripts probe a port with \<^verbatim>\<open>socket.connect_ex(('127.0.0.1', port))\<close>. The call
  returns 0 when the connection is accepted and an error number otherwise, and it raises
  \<^verbatim>\<open>OverflowError\<close> for a port outside 0..65535. The host is given by the ports on which
  a connection is accepted at probe time; a port is unbound when none is.
\<close>

datatype error = OverflowError | IndexError

type_synonym host = "int \<Rightarrow> bool"

definition ECONNREFUSED :: int where
  "ECONNREFUSED = 111"

definition connect_ex :: "host \<Rightarrow> int \<Rightarrow> error + int" where
  "connect_ex host port =
     (if port < 0 \<or> 65535 < port then Inl OverflowError
      else if host port then Inr 0
      else Inr ECONNREFUSED)"

subsection \<open>\<^verbatim>\<open>MaliciousNodeTest.find_available_port\<close> (malicious\_node\_test.py)\<close>

text \<open>
  \<^verbatim>\<open>
  ports = []
  port = start_port
  while len(ports) < count:
      try:
          sock = socket.socket(socket.AF_INET, socket.SOCK_STREAM)
          result = sock.connect_ex(('127.0.0.1', port))
          sock.close()
          if result != 0:
              ports.append(port)
          port += 1
      except:
          port += 1
  return ports
  \<close>
  The loop has no bound of its own: past port 65535 every probe raises, the handler moves
  on to the next port, and the loop runs forever. Not returning is the value \<open>None\<close>.
\<close>

partial_function (option) find_loop :: "host \<Rightarrow> int \<Rightarrow> int list \<Rightarrow> int \<Rightarrow> int list option" where
  "find_loop host count ports port =
     (if int (length ports) < count then
        (case connect_ex host port of
           Inr result \<Rightarrow>
             if result \<noteq> 0 then find_loop host count (ports @ [port]) (port + 1)
             else find_loop host count ports (port + 1)
         | Inl e \<Rightarrow> find_loop host count ports (port + 1))
      else Some ports)"

declare find_loop.simps [code]

definition find_available_port :: "host \<Rightarrow> int \<Rightarrow> int \<Rightarrow> int list option" where
  "find_available_port host start_port count = find_loop host count [] start_port"

subsection \<open>\<^verbatim>\<open>find_available_port\<close> of network\_manager.py\<close>

text \<open>
  \<^verbatim>\<open>
  def is_port_in_use(port):
      with socket.socket(socket.AF_INET, socket.SOCK_STREAM) as s:
          return s.connect_ex(('127.0.0.1', port)) == 0

  def find_available_port(start_port, count=1):
      ports = []
      port = start_port
      while len(ports) < count:
          if not is_port_in_use(port):
              ports.append(port)
          port += 1
      return ports
  \<close>
  Here nothing catches the exception of a probe: it ends the loop and is the result.
\<close>

definition is_port_in_use :: "host \<Rightarrow> int \<Rightarrow> error + bool" where
  "is_port_in_use host port =
     (case connect_ex host port of Inl e \<Rightarrow> Inl e | Inr result \<Rightarrow> Inr (result = 0))"

function nm_find_loop :: "host \<Rightarrow> int \<Rightarrow> int list \<Rightarrow> int \<Rightarrow> error + int list" where
  "nm_find_loop host count ports port =
     (if int (length ports) < count then
        (case is_port_in_use host port of
           Inl e \<Rightarrow> Inl e
         | Inr in_use \<Rightarrow>
             if \<not> in_use then nm_find_loop host count (ports @ [port]) (port + 1)
             else nm_find_loop host count ports (port + 1))
      else Inr ports)"
  by pat_completeness auto
termination
proof (relation "measure (\<lambda>(host, count, ports, port). nat (65536 - port))")
  show "wf (measure (\<lambda>(host, count, ports, port). nat (65536 - port)))"
    by simp
next
  fix host :: host and count :: int and ports :: "int list" and port :: int and in_use :: bool
  assume "is_port_in_use host port = Inr in_use"
  then have "port \<le> 65535"
    by (auto simp: is_port_in_use_def connect_ex_def split: if_splits)
  then show "((host, count, ports @ [port], port + 1), (host, count, ports, port))
      \<in> measure (\<lambda>(host, count, ports, port). nat (65536 - port))"
    by simp
next
  fix host :: host and count :: int and ports :: "int list" and port :: int and in_use :: bool
  assume "is_port_in_use host port = Inr in_use"
  then have "port \<le> 65535"
    by (auto simp: is_port_in_use_def connect_ex_def split: if_splits)
  then show "((host, count, ports, port + 1), (host, count, ports, port))
      \<in> measure (\<lambda>(host, count, ports, port). nat (65536 - port))"
    by simp
qed

definition nm_find_available_port :: "host \<Rightarrow> int \<Rightarrow> int \<Rightarrow> error + int list" where
  "nm_find_available_port host start_port count = nm_find_loop host count [] start_port"

section \<open>The nodes and the network, as the scripts meet them\<close>

text \<open>
  The result of a health probe (\<^verbatim>\<open>urllib.request.urlopen(req, timeout=2)\<close>): a response
  with its status, or an exception (connection refused, timeout, \<^verbatim>\<open>HTTPError\<close>): the
  node is unreachable.
\<close>

datatype probe = Status int | Unreachable

text \<open>
  What \<^verbatim>\<open>len(self.get_neighbors(node_name))\<close> gives: the length of the list
  (\<^verbatim>\<open>get_neighbors\<close> returns the empty list when the call fails), or a \<^verbatim>\<open>TypeError\<close>
  when the \<^verbatim>\<open>neighbors\<close> entry of the answer has no length.
\<close>

datatype listing = Listed nat | Unsized

text \<open>
  How the process of a node reacts when it is stopped. \<open>Exits\<close>: \<^verbatim>\<open>proc.terminate()\<close>
  returns and \<^verbatim>\<open>proc.wait(timeout=5)\<close> returns within the five seconds. \<open>Hangs\<close>: the
  wait raises \<^verbatim>\<open>TimeoutExpired\<close>; \<^verbatim>\<open>proc.kill()\<close> and the second \<^verbatim>\<open>proc.wait()\<close>
  return. \<open>Fails\<close>: \<^verbatim>\<open>proc.terminate()\<close> raises an exception. \<open>KillFails\<close>: the
  wait raises \<^verbatim>\<open>TimeoutExpired\<close> and \<^verbatim>\<open>proc.kill()\<close> raises an exception.
\<close>

datatype reaction = Exits | Hangs | Fails | KillFails

text \<open>
  Everything outside the scripts: the pid of the process that \<^verbatim>\<open>Popen\<close> starts for a node
  (\<open>None\<close> when \<^verbatim>\<open>Popen\<close> raises); whether \<^verbatim>\<open>wait_for_node\<close> sees the node healthy within
  its timeout; how the node's process reacts to being stopped; the health probe and the
  neighbour list of a node in the \<open>k\<close>-th sample of the run; and the status code that
  \<^verbatim>\<open>api_call\<close> returns for the \<open>i\<close>-th request of an attack by a node (0 when the request
  raised).
\<close>

record env =
  env_popen :: "string \<Rightarrow> int option"
  env_ready :: "string \<Rightarrow> bool"
  env_reaction :: "string \<Rightarrow> reaction"
  env_health :: "nat \<Rightarrow> string \<Rightarrow> probe"
  env_neighbors :: "nat \<Rightarrow> string \<Rightarrow> listing"
  env_api :: "string \<Rightarrow> string \<Rightarrow> nat \<Rightarrow> int"

section \<open>Node descriptors of malicious\_node\_test.py\<close>

text \<open>The dataclass \<^verbatim>\<open>NodeInfo\<close>; \<^verbatim>\<open>pid\<close> defaults to 0 and \<^verbatim>\<open>status\<close> to "stopped".\<close>

record NodeInfo =
  node_id :: string
  index :: int
  p2p_port :: int
  http_port :: int
  admin_port :: int
  data_dir :: string
  is_genesis :: bool
  is_malicious :: bool
  pid :: int
  status :: string

text \<open>
  What the scripts do to the operating system is kept as a trace of events: a process
  spawned for a node (\<^verbatim>\<open>subprocess.Popen\<close>), \<^verbatim>\<open>proc.terminate()\<close> called on a node's
  process, \<^verbatim>\<open>proc.kill()\<close> called on it.
\<close>

datatype event = Spawn string | Terminate string | Kill string

text \<open>The nodes in the order in which they were spawned, and in which they were stopped.\<close>

fun start_order :: "event list \<Rightarrow> string list" where
  "start_order [] = []"
| "start_order (Spawn n # es) = n # start_order es"
| "start_order (e # es) = start_order es"

fun stop_order :: "event list \<Rightarrow> string list" where
  "stop_order [] = []"
| "stop_order (Terminate n # es) = n # stop_order es"
| "stop_order (e # es) = stop_order es"

text \<open>
  The state of a \<^verbatim>\<open>MaliciousNodeTest\<close>: \<^verbatim>\<open>self.nodes\<close> (node id to descriptor),
  \<^verbatim>\<open>self.processes\<close> (node id to the process handle, given by its pid), the stages of
  \<^verbatim>\<open>self.report\<close> (stage, number of nodes, status), and whether the report file has been
  written. Python dictionaries keep the order of insertion, and the teardown code iterates
  over them: they are association lists, updated with \<^const>\<open>AList.update\<close> (a new key
  goes to the end, an old key keeps its place). The trace is not a field of the class.
\<close>

record manager =
  nodes :: "(string \<times> NodeInfo) list"
  processes :: "(string \<times> int) list"
  stages :: "(string \<times> int \<times> string) list"
  report_written :: bool
  trace :: "event list"

text \<open>\<^verbatim>\<open>MaliciousNodeTest.__init__\<close>\<close>

definition init_manager :: manager where
  "init_manager = \<lparr>nodes = [], processes = [], stages = [], report_written = False, trace = []\<rparr>"

text \<open>Decimal digits of a natural number, and the format \<^verbatim>\<open>{index:02d}\<close>.\<close>

function decimal :: "nat \<Rightarrow> string" where
  "decimal n = (if n < 10 then [''0123456789'' ! n] else decimal (n div 10) @ [''0123456789'' ! (n mod 10)])"
  by pat_completeness auto
termination
  by (relation "measure (\<lambda>n. n)") auto

definition format_02d :: "int \<Rightarrow> string" where
  "format_02d i =
     (if i < 0 then ''-'' @ decimal (nat (- i))
      else if i < 10 then ''0'' @ decimal (nat i)
      else decimal (nat i))"

definition DATA_DIR :: string where
  "DATA_DIR = ''testnet_malicious/data''"

text \<open>
  \<^verbatim>\<open>
  def create_node(self, index, is_genesis=False, is_malicious=False):
      node_id = f"node{index:02d}"
      ports = self.find_available_port(9000 + index * 100, 3)
      p2p_port, http_port, admin_port = ports[0], ports[1], ports[2]
      data_dir = DATA_DIR / node_id
      node = NodeInfo(node_id=node_id, index=index, p2p_port=p2p_port, http_port=http_port,
                      admin_port=admin_port, data_dir=str(data_dir),
                      is_genesis=is_genesis, is_malicious=is_malicious)
      self.nodes[node_id] = node
      return node
  \<close>
  The result is \<open>None\<close> when the port search never returns, \<open>Inl IndexError\<close> when the
  list of ports is shorter than three, and the descriptor with the updated manager
  otherwise.
\<close>

definition create_node ::
  "host \<Rightarrow> manager \<Rightarrow> int \<Rightarrow> bool \<Rightarrow> bool \<Rightarrow> (error + NodeInfo \<times> manager) option" where
  "create_node host self idx genesis malicious =
     (let nid = ''node'' @ format_02d idx in
      case find_available_port host (9000 + idx * 100) 3 of
        None \<Rightarrow> None
      | Some (p2p # http # admin # _) \<Rightarrow>
          (let node = \<lparr>node_id = nid, index = idx, p2p_port = p2p, http_port = http,
                       admin_port = admin, data_dir = DATA_DIR @ ''/'' @ nid,
                       is_genesis = genesis, is_malicious = malicious,
                       pid = 0, status = ''stopped''\<rparr>
           in Some (Inr (node, self\<lparr>nodes := AList.update nid node (nodes self)\<rparr>)))
      | Some _ \<Rightarrow> Some (Inl IndexError))"

subsection \<open>\<^verbatim>\<open>generate_node_configs\<close> of network\_manager.py\<close>

record NodeConfig =
  nc_node_id :: string
  nc_p2p_port :: int
  nc_http_port :: int
  nc_data_dir :: string
  nc_bootstrap :: string
  nc_is_genesis :: bool
  nc_is_supernode :: bool

record NetworkConfig =
  network_name :: string
  base_dir :: string
  node_count :: int
  base_p2p_port :: int
  base_http_port :: int
  genesis_node_id :: string

text \<open>The format \<^verbatim>\<open>{i:03d}\<close>, for the indices 1, 2, ... of the loop.\<close>

definition format_03d :: "int \<Rightarrow> string" where
  "format_03d i =
     (if i < 0 then (if - i < 10 then ''-0'' else ''-'') @ decimal (nat (- i))
      else if i < 10 then ''00'' @ decimal (nat i)
      else if i < 100 then ''0'' @ decimal (nat i)
      else decimal (nat i))"

text \<open>
  \<^verbatim>\<open>
  nodes = [genesis]     # p2p_port=config.base_p2p_port, http_port=config.base_http_port
  bootstrap_addr = f"/ip4/127.0.0.1/tcp/{config.base_p2p_port}/p2p/{config.genesis_node_id}"
  for i in range(1, config.node_count):
      nodes.append(NodeConfig(node_id=f"node-{i:03d}", p2p_port=config.base_p2p_port + i,
                              http_port=config.base_http_port + i, ..., bootstrap=bootstrap_addr))
  return nodes
  \<close>
  \<^verbatim>\<open>range(1, n)\<close> is \<open>[1..n - 1]\<close>, empty for \<open>n \<le> 1\<close>. A \<^verbatim>\<open>NodeConfig\<close> has a p2p
  and an http port and no admin port.
\<close>

definition show_int :: "int \<Rightarrow> string" where
  "show_int i = (if i < 0 then ''-'' @ decimal (nat (- i)) else decimal (nat i))"

definition generate_node_configs :: "NetworkConfig \<Rightarrow> NodeConfig list" where
  "generate_node_configs config =
     (let genesis = \<lparr>nc_node_id = genesis_node_id config,
                      nc_p2p_port = base_p2p_port config,
                      nc_http_port = base_http_port config,
                      nc_data_dir = base_dir config @ ''/node-genesis'',
                      nc_bootstrap = '''',
                      nc_is_genesis = True, nc_is_supernode = True\<rparr>;
          bootstrap_addr = ''/ip4/127.0.0.1/tcp/'' @ show_int (base_p2p_port config)
                             @ ''/p2p/'' @ genesis_node_id config
      in genesis #
         map (\<lambda>i. \<lparr>nc_node_id = ''node-'' @ format_03d i,
                    nc_p2p_port = base_p2p_port config + i,
                    nc_http_port = base_http_port config + i,
                    nc_data_dir = base_dir config @ ''/node-'' @ format_03d i,
                    nc_bootstrap = bootstrap_addr,
                    nc_is_genesis = False, nc_is_supernode = False\<rparr>)
             [1..node_count config - 1])"



section \<open>Starting and stopping nodes in malicious\_node\_test.py\<close>

text \<open>
  \<^verbatim>\<open>
  def stop_node(self, node):
      try:
          if node.node_id in self.processes:
              proc = self.processes[node.node_id]
              proc.terminate()
              try:
                  proc.wait(timeout=5)
              except subprocess.TimeoutExpired:
                  proc.kill()
                  proc.wait()
              del self.processes[node.node_id]
          node.status = "stopped"
          node.pid = 0
          return True
      except Exception as e:
          return False
  \<close>
  The function reads and writes \<^verbatim>\<open>self.processes\<close> and the descriptor it is given; the
  result is the returned flag, the descriptor and the manager afterwards.
\<close>

definition stopped :: "NodeInfo \<Rightarrow> NodeInfo" where
  "stopped node = node\<lparr>status := ''stopped'', pid := 0\<rparr>"

definition stop_node :: "(string \<Rightarrow> reaction) \<Rightarrow> manager \<Rightarrow> NodeInfo \<Rightarrow> bool \<times> NodeInfo \<times> manager" where
  "stop_node react self node =
     (if node_id node \<in> fst ` set (processes self) then
        (case react (node_id node) of
           Exits \<Rightarrow>
             (True, stopped node,
              self\<lparr>processes := AList.delete (node_id node) (processes self),
                    trace := trace self @ [Terminate (node_id node)]\<rparr>)
         | Hangs \<Rightarrow>
             (True, stopped node,
              self\<lparr>processes := AList.delete (node_id node) (processes self),
                    trace := trace self @ [Terminate (node_id node), Kill (node_id node)]\<rparr>)
         | Fails \<Rightarrow>
             (False, node, self\<lparr>trace := trace self @ [Terminate (node_id node)]\<rparr>)
         | KillFails \<Rightarrow>
             (False, node,
              self\<lparr>trace := trace self @ [Terminate (node_id node), Kill (node_id node)]\<rparr>))
      else (True, stopped node, self))"

text \<open>
  \<^verbatim>\<open>
  def stage_5_shutdown(self, nodes):
      for node in reversed(nodes):
          self.stop_node(node)
          time.sleep(1)
      self.report["stages"].append({"stage": "shutdown", "nodes": len(nodes), "status": "success"})
  \<close>
  The loop, over a list of descriptors in the order given; it returns the descriptors as the
  calls leave them.
\<close>

fun stop_nodes :: "(string \<Rightarrow> reaction) \<Rightarrow> manager \<Rightarrow> NodeInfo list \<Rightarrow> NodeInfo list \<times> manager" where
  "stop_nodes react self [] = ([], self)"
| "stop_nodes react self (node # rest) =
     (case stop_node react self node of
        (ok, node', self') \<Rightarrow>
          (case stop_nodes react self' rest of
             (rest', self'') \<Rightarrow> (node' # rest', self'')))"

definition stage_5_shutdown ::
  "(string \<Rightarrow> reaction) \<Rightarrow> manager \<Rightarrow> NodeInfo list \<Rightarrow> NodeInfo list \<times> manager" where
  "stage_5_shutdown react self node_list =
     (case stop_nodes react self (rev node_list) of
        (stopped_rev, self') \<Rightarrow>
          (rev stopped_rev,
           self'\<lparr>stages := stages self' @ [(''shutdown'', int (length node_list), ''success'')]\<rparr>))"

text \<open>
  \<^verbatim>\<open>
  def cleanup(self):
      for node_id in list(self.nodes.keys()):
          node = self.nodes[node_id]
          self.stop_node(node)
  \<close>
  The descriptors are the objects held in \<^verbatim>\<open>self.nodes\<close>, so the table is updated with
  them.
\<close>

definition cleanup :: "(string \<Rightarrow> reaction) \<Rightarrow> manager \<Rightarrow> manager" where
  "cleanup react self =
     (case stop_nodes react self (map snd (nodes self)) of
        (stopped_nodes, self') \<Rightarrow>
          self'\<lparr>nodes := zip (map fst (nodes self)) stopped_nodes\<rparr>)"

subsection \<open>Bringing the nodes up\<close>

text \<open>
  \<^verbatim>\<open>
  def start_node(self, node, bootstrap_addr=None):
      try:
          ...
          with open(log_file, 'w') as f:
              proc = subprocess.Popen(cmd, ...)
          self.processes[node.node_id] = proc
          node.pid = proc.pid
          node.status = "started"
          time.sleep(2)
          if self.wait_for_node(node, timeout=10):
              node.status = "running"
              return True
          else:
              node.status = "failed"
              return False
      except Exception as e:
          node.status = "failed"
          return False
  \<close>
\<close>

definition mnt_start_node :: "env \<Rightarrow> manager \<Rightarrow> NodeInfo \<Rightarrow> bool \<times> NodeInfo \<times> manager" where
  "mnt_start_node e self node =
     (case env_popen e (node_id node) of
        None \<Rightarrow> (False, node\<lparr>status := ''failed''\<rparr>, self)
      | Some proc \<Rightarrow>
          (let self' = self\<lparr>processes := AList.update (node_id node) proc (processes self),
                            trace := trace self @ [Spawn (node_id node)]\<rparr>;
               node' = node\<lparr>pid := proc, status := ''started''\<rparr>
           in if env_ready e (node_id node)
              then (True, node'\<lparr>status := ''running''\<rparr>, self')
              else (False, node'\<lparr>status := ''failed''\<rparr>, self')))"

text \<open>
  A stage either does not return (\<open>None\<close>, when a port search runs forever), raises
  (\<open>Inl\<close>, with the manager as it is then) or returns (\<open>Inr\<close>). The descriptor that
  \<^verbatim>\<open>start_node\<close> changes is the object that \<^verbatim>\<open>create_node\<close> has just stored in
  \<^verbatim>\<open>self.nodes\<close>, so the table is updated with it.
\<close>

definition create_and_start ::
  "host \<Rightarrow> env \<Rightarrow> manager \<Rightarrow> int \<Rightarrow> bool \<Rightarrow> bool
     \<Rightarrow> (error \<times> manager + (bool \<times> NodeInfo) \<times> manager) option" where
  "create_and_start h e self idx genesis malicious =
     (case create_node h self idx genesis malicious of
        None \<Rightarrow> None
      | Some (Inl err) \<Rightarrow> Some (Inl (err, self))
      | Some (Inr (node, s1)) \<Rightarrow>
          (case mnt_start_node e s1 node of
             (ok, node', s2) \<Rightarrow>
               Some (Inr ((ok, node'),
                          s2\<lparr>nodes := AList.update (node_id node') node' (nodes s2)\<rparr>))))"

text \<open>
  \<^verbatim>\<open>
  def stage_1_genesis(self):
      genesis_node = self.create_node(0, is_genesis=True)
      if self.start_node(genesis_node):
          ...
          self.report["stages"].append({"stage": "genesis", "nodes": 1, "status": "success"})
          return genesis_node
      else:
          self.report["stages"].append({"stage": "genesis", "nodes": 1, "status": "failed"})
          return None
  \<close>
\<close>

definition mnt_stage_1_genesis ::
  "host \<Rightarrow> env \<Rightarrow> manager \<Rightarrow> (error \<times> manager + NodeInfo option \<times> manager) option" where
  "mnt_stage_1_genesis h e self =
     (case create_and_start h e self 0 True False of
        None \<Rightarrow> None
      | Some (Inl raised) \<Rightarrow> Some (Inl raised)
      | Some (Inr ((ok, genesis_node), s)) \<Rightarrow>
          if ok
          then Some (Inr (Some genesis_node,
                          s\<lparr>stages := stages s @ [(''genesis'', 1, ''success'')]\<rparr>))
          else Some (Inr (None, s\<lparr>stages := stages s @ [(''genesis'', 1, ''failed'')]\<rparr>)))"

text \<open>
  The loop of the stages 2 and 3, over the indices of the nodes to add:
  \<^verbatim>\<open>
  for i in range(...):
      is_malicious = i in {2, 7}
      node = self.create_node(i, is_malicious=is_malicious)
      if self.start_node(node, bootstrap_addr):
          nodes.append(node)
          ...
  \<close>
\<close>

fun expand ::
  "host \<Rightarrow> env \<Rightarrow> int list \<Rightarrow> NodeInfo list \<Rightarrow> manager
     \<Rightarrow> (error \<times> manager + NodeInfo list \<times> manager) option" where
  "expand h e [] node_list self = Some (Inr (node_list, self))"
| "expand h e (i # rest) node_list self =
     (case create_and_start h e self i False (i \<in> {2, 7}) of
        None \<Rightarrow> None
      | Some (Inl raised) \<Rightarrow> Some (Inl raised)
      | Some (Inr ((ok, node), s)) \<Rightarrow>
          expand h e rest (if ok then node_list @ [node] else node_list) s)"

text \<open>
  The entry that a stage appends to the report: the number of nodes of the list, and
  "success" when at least \<open>enough\<close> of them have the status "running".
\<close>

definition stage_entry :: "string \<Rightarrow> nat \<Rightarrow> NodeInfo list \<Rightarrow> string \<times> int \<times> string" where
  "stage_entry stage enough node_list =
     (stage, int (length node_list),
      if enough \<le> length (filter (\<lambda>n. status n = ''running'') node_list)
      then ''success'' else ''partial'')"

text \<open>
  \<^verbatim>\<open>stage_2_expand_to_10(genesis_node)\<close>: \<^verbatim>\<open>nodes = [genesis_node]\<close>, the loop over
  \<^verbatim>\<open>range(1, self.initial_nodes)\<close>, the report entry (success from 8 running nodes on).
\<close>

definition stage_2_expand_to_10 ::
  "host \<Rightarrow> env \<Rightarrow> int \<Rightarrow> manager \<Rightarrow> NodeInfo
     \<Rightarrow> (error \<times> manager + NodeInfo list \<times> manager) option" where
  "stage_2_expand_to_10 h e initial_nodes self genesis_node =
     (case expand h e [1..initial_nodes - 1] [genesis_node] self of
        None \<Rightarrow> None
      | Some (Inl raised) \<Rightarrow> Some (Inl raised)
      | Some (Inr (node_list, s)) \<Rightarrow>
          Some (Inr (node_list,
                     s\<lparr>stages := stages s @ [stage_entry ''expand_to_10'' 8 node_list]\<rparr>)))"

text \<open>
  \<^verbatim>\<open>stage_3_expand_to_20(nodes)\<close>: \<^verbatim>\<open>genesis_node = nodes[0]\<close> (an \<^verbatim>\<open>IndexError\<close> on an
  empty list), the loop over \<^verbatim>\<open>range(len(nodes), self.max_nodes)\<close>, the report entry
  (success from 18 running nodes on).
\<close>

definition stage_3_expand_to_20 ::
  "host \<Rightarrow> env \<Rightarrow> int \<Rightarrow> manager \<Rightarrow> NodeInfo list
     \<Rightarrow> (error \<times> manager + NodeInfo list \<times> manager) option" where
  "stage_3_expand_to_20 h e max_nodes self node_list =
     (if node_list = [] then Some (Inl (IndexError, self))
      else
        (case expand h e [int (length node_list)..max_nodes - 1] node_list self of
           None \<Rightarrow> None
         | Some (Inl raised) \<Rightarrow> Some (Inl raised)
         | Some (Inr (node_list', s)) \<Rightarrow>
             Some (Inr (node_list',
                        s\<lparr>stages := stages s @ [stage_entry ''expand_to_20'' 18 node_list']\<rparr>))))"

text \<open>\<^verbatim>\<open>generate_report\<close> of malicious\_node\_test.py writes the report file.\<close>

definition mnt_generate_report :: "manager \<Rightarrow> manager" where
  "mnt_generate_report self = self\<lparr>report_written := True\<rparr>"

text \<open>
  \<^verbatim>\<open>
  def run_test(self):
      try:
          genesis_node = self.stage_1_genesis()
          if not genesis_node:
              return
          nodes = self.stage_2_expand_to_10(genesis_node)
          nodes = self.stage_3_expand_to_20(nodes)
          self.stage_4_observe_network(nodes)
          self.stage_5_shutdown(nodes)
          self.generate_report()
      except KeyboardInterrupt:
          self.cleanup()
          sys.exit(1)
      except Exception as e:
          self.cleanup()
          sys.exit(1)
  \<close>
  Stage 4 watches the network for thirty seconds while the malicious nodes act; it starts
  and stops no process and writes no stage, and it is where an operator's interrupt is
  taken to arrive, when \<open>interrupted\<close> holds. The result is the exit code and the
  manager at the end.
\<close>

definition mnt_run_test ::
  "host \<Rightarrow> env \<Rightarrow> int \<Rightarrow> int \<Rightarrow> bool \<Rightarrow> manager \<Rightarrow> (int \<times> manager) option" where
  "mnt_run_test h e initial_nodes max_nodes interrupted self =
     (case mnt_stage_1_genesis h e self of
        None \<Rightarrow> None
      | Some (Inl (err, s)) \<Rightarrow> Some (1, cleanup (env_reaction e) s)
      | Some (Inr (None, s)) \<Rightarrow> Some (0, s)
      | Some (Inr (Some genesis_node, s1)) \<Rightarrow>
          (case stage_2_expand_to_10 h e initial_nodes s1 genesis_node of
             None \<Rightarrow> None
           | Some (Inl (err, s)) \<Rightarrow> Some (1, cleanup (env_reaction e) s)
           | Some (Inr (node_list, s2)) \<Rightarrow>
               (case stage_3_expand_to_20 h e max_nodes s2 node_list of
                  None \<Rightarrow> None
                | Some (Inl (err, s)) \<Rightarrow> Some (1, cleanup (env_reaction e) s)
                | Some (Inr (node_list', s3)) \<Rightarrow>
                    if interrupted then Some (1, cleanup (env_reaction e) s3)
                    else
                      (case stage_5_shutdown (env_reaction e) s3 node_list' of
                         (stopped_list, s5) \<Rightarrow> Some (0, mnt_generate_report s5)))))"

section \<open>The local five-node test (heterogeneous\_network\_test\_local.py)\<close>

record node_config =
  cfg_p2p_port :: int
  cfg_http_port :: int
  cfg_admin_port :: int
  cfg_grpc_port :: int
  cfg_is_malicious :: bool
  cfg_is_genesis :: bool
  cfg_role :: string

definition NODES_CONFIG :: "(string \<times> node_config) list" where
  "NODES_CONFIG =
     [(''genesis'', \<lparr>cfg_p2p_port = 9100, cfg_http_port = 18400, cfg_admin_port = 18500,
         cfg_grpc_port = 50100, cfg_is_malicious = False, cfg_is_genesis = True,
         cfg_role = ''bootstrap''\<rparr>),
      (''node1'', \<lparr>cfg_p2p_port = 9101, cfg_http_port = 18401, cfg_admin_port = 18501,
         cfg_grpc_port = 50101, cfg_is_malicious = False, cfg_is_genesis = False,
         cfg_role = ''normal''\<rparr>),
      (''node2'', \<lparr>cfg_p2p_port = 9102, cfg_http_port = 18402, cfg_admin_port = 18502,
         cfg_grpc_port = 50102, cfg_is_malicious = False, cfg_is_genesis = False,
         cfg_role = ''normal''\<rparr>),
      (''malicious1'', \<lparr>cfg_p2p_port = 9103, cfg_http_port = 18403, cfg_admin_port = 18503,
         cfg_grpc_port = 50103, cfg_is_malicious = True, cfg_is_genesis = False,
         cfg_role = ''normal''\<rparr>),
      (''malicious2'', \<lparr>cfg_p2p_port = 9104, cfg_http_port = 18404, cfg_admin_port = 18504,
         cfg_grpc_port = 50104, cfg_is_malicious = True, cfg_is_genesis = False,
         cfg_role = ''normal''\<rparr>)]"

subsection \<open>State of the test\<close>

text \<open>
  The result of an attack, which the script formats into the message \<^verbatim>\<open>result\<close>:
  the three counts of the flood; the response codes of the false messages; the number of
  abuse tests; the number of accepted replays; the number of accepted fake identities;
  the count of accepted requests per target.
\<close>

datatype outcome =
    Flood int int int
  | Codes "int list"
  | Abuse nat
  | Replay nat
  | Sybil nat
  | Targets "(string \<times> nat) list"

text \<open>The dataclass \<^verbatim>\<open>AttackEvent\<close>, without its timestamp and description.\<close>

record AttackEvent =
  ev_node :: string
  ev_attack_type :: string
  ev_result :: outcome
  ev_response_code :: int

text \<open>
  The dataclass \<^verbatim>\<open>NetworkStats\<close>, without its timestamp and the two host-level floats
  (\<^verbatim>\<open>cpu_percent\<close>, \<^verbatim>\<open>memory_percent\<close>).
\<close>

record NetworkStats =
  total_nodes :: int
  healthy_nodes :: int
  neighbors_count :: "(string \<times> int) list"

text \<open>The report as \<^verbatim>\<open>generate_report\<close> dumps it to the report file.\<close>

record report =
  rep_stages :: "(string \<times> string) list"
  rep_attacks :: "AttackEvent list"
  rep_samples :: nat

text \<open>
  The state of a \<^verbatim>\<open>HeterogeneousNetworkTestLocal\<close>: \<^verbatim>\<open>self.processes\<close> (name to process
  handle), \<^verbatim>\<open>self.attack_events\<close>, \<^verbatim>\<open>self.network_stats\<close>, the stages of
  \<^verbatim>\<open>self.report\<close>, the report file (\<open>None\<close> while it has not been written), and the trace of
  the processes spawned and stopped.
\<close>

record tester =
  procs :: "(string \<times> int) list"
  attack_events :: "AttackEvent list"
  network_stats :: "NetworkStats list"
  report_stages :: "(string \<times> string) list"
  report_file :: "report option"
  os_trace :: "event list"

definition init_tester :: tester where
  "init_tester = \<lparr>procs = [], attack_events = [], network_stats = [], report_stages = [],
     report_file = None, os_trace = []\<rparr>"

subsection \<open>Starting and stopping a node\<close>

text \<open>
  \<^verbatim>\<open>
  def start_node(self, node_name, bootstrap_addr=None):
      ...
      try:
          with open(log_file, 'w') as f:
              proc = subprocess.Popen(cmd, ...)
          self.processes[node_name] = proc
          return True
      except Exception as e:
          return False
  \<close>
\<close>

definition start_node :: "env \<Rightarrow> tester \<Rightarrow> string \<Rightarrow> bool \<times> tester" where
  "start_node e self node_name =
     (case env_popen e node_name of
        None \<Rightarrow> (False, self)
      | Some proc \<Rightarrow>
          (True, self\<lparr>procs := AList.update node_name proc (procs self),
                      os_trace := os_trace self @ [Spawn node_name]\<rparr>))"

text \<open>\<^verbatim>\<open>wait_for_node\<close> polls the health endpoint until its timeout: the environment tells the result.\<close>

definition wait_for_node :: "env \<Rightarrow> string \<Rightarrow> bool" where
  "wait_for_node e node_name = env_ready e node_name"

text \<open>
  \<^verbatim>\<open>
  def stop_node(self, node_name):
      if node_name not in self.processes:
          return True
      proc = self.processes[node_name]
      try:
          proc.terminate()            # CTRL_BREAK_EVENT on Windows
          try:
              proc.wait(timeout=5)
          except subprocess.TimeoutExpired:
              proc.kill()
              proc.wait()
          del self.processes[node_name]
          return True
      except Exception as e:
          return False
  \<close>
\<close>

definition local_stop_node :: "env \<Rightarrow> tester \<Rightarrow> string \<Rightarrow> bool \<times> tester" where
  "local_stop_node e self node_name =
     (if node_name \<notin> fst ` set (procs self) then (True, self)
      else
        (case env_reaction e node_name of
           Exits \<Rightarrow>
             (True, self\<lparr>procs := AList.delete node_name (procs self),
                         os_trace := os_trace self @ [Terminate node_name]\<rparr>)
         | Hangs \<Rightarrow>
             (True, self\<lparr>procs := AList.delete node_name (procs self),
                         os_trace := os_trace self @ [Terminate node_name, Kill node_name]\<rparr>)
         | Fails \<Rightarrow>
             (False, self\<lparr>os_trace := os_trace self @ [Terminate node_name]\<rparr>)
         | KillFails \<Rightarrow>
             (False, self\<lparr>os_trace := os_trace self @ [Terminate node_name, Kill node_name]\<rparr>)))"

text \<open>
  \<^verbatim>\<open>
  def stop_all(self):
      for node_name in list(self.processes.keys()):
          self.stop_node(node_name)
  \<close>
  The loop runs over the keys as they are when it starts.
\<close>

fun stop_each :: "env \<Rightarrow> tester \<Rightarrow> string list \<Rightarrow> tester" where
  "stop_each e self [] = self"
| "stop_each e self (node_name # rest) = stop_each e (snd (local_stop_node e self node_name)) rest"

definition stop_all :: "env \<Rightarrow> tester \<Rightarrow> tester" where
  "stop_all e self = stop_each e self (map fst (procs self))"

subsection \<open>Monitoring\<close>

text \<open>
  \<^verbatim>\<open>
  def monitor_network(self):
      healthy = 0
      neighbors = {}
      for node_name, config in NODES_CONFIG.items():
          port = config['http_port']
          try:
              url = f"http://127.0.0.1:{port}/health"
              req = urllib.request.Request(url, method="GET")
              with urllib.request.urlopen(req, timeout=2) as response:
                  if response.status == 200:
                      healthy += 1
              neighbor_list = self.get_neighbors(node_name)
              neighbors[node_name] = len(neighbor_list)
          except:
              neighbors[node_name] = -1
      stats = NetworkStats(total_nodes=len(NODES_CONFIG), healthy_nodes=healthy,
                           neighbors_count=neighbors, ...)
      self.network_stats.append(stats)
      return stats
  \<close>
  The loop, with the value that the handler stores as a parameter: the Docker variant of
  the script has the same loop and stores another value.
\<close>

fun monitor_loop ::
  "int \<Rightarrow> (string \<Rightarrow> probe) \<Rightarrow> (string \<Rightarrow> listing) \<Rightarrow> string list
     \<Rightarrow> int \<times> (string \<times> int) list \<Rightarrow> int \<times> (string \<times> int) list" where
  "monitor_loop mark h nb [] acc = acc"
| "monitor_loop mark h nb (node_name # rest) (healthy, neighbors) =
     (case h node_name of
        Unreachable \<Rightarrow>
          monitor_loop mark h nb rest (healthy, AList.update node_name mark neighbors)
      | Status code \<Rightarrow>
          (let healthy' = (if code = 200 then healthy + 1 else healthy) in
           case nb node_name of
             Listed k \<Rightarrow>
               monitor_loop mark h nb rest (healthy', AList.update node_name (int k) neighbors)
           | Unsized \<Rightarrow>
               monitor_loop mark h nb rest (healthy', AList.update node_name mark neighbors)))"

definition monitor_network :: "env \<Rightarrow> tester \<Rightarrow> NetworkStats \<times> tester" where
  "monitor_network e self =
     (let k = length (network_stats self);
          (healthy, neighbors) =
            monitor_loop (- 1) (env_health e k) (env_neighbors e k) (map fst NODES_CONFIG) (0, []);
          stats = \<lparr>total_nodes = int (length NODES_CONFIG), healthy_nodes = healthy,
                   neighbors_count = neighbors\<rparr>
      in (stats, self\<lparr>network_stats := network_stats self @ [stats]\<rparr>))"

text \<open>\<^verbatim>\<open>print_network_status\<close> takes a sample and logs it.\<close>

definition print_network_status :: "env \<Rightarrow> tester \<Rightarrow> tester" where
  "print_network_status e self = snd (monitor_network e self)"

subsection \<open>The attacks\<close>

text \<open>
  \<^verbatim>\<open>
  def attack_spam_flooding(self, node_name):
      success_count = 0
      blocked_count = 0
      error_count = 0
      for i in range(20):
          spam_content = f"SPAM_{i}_" + "X" * 100
          code, result = self.post_bulletin(node_name, spam_content)
          if code == 200:
              success_count += 1
          elif code == 429:  # Rate limited
              blocked_count += 1
          else:
              error_count += 1
          time.sleep(0.02)
      result_msg = f"... {success_count} ..., {blocked_count} ..., {error_count} ..."
      self.attack_events.append(AttackEvent(node=node_name, attack_type="spam_flooding",
          result=result_msg, response_code=429 if blocked_count > 0 else 200))
  \<close>
  \<^verbatim>\<open>post_bulletin\<close> goes through \<^verbatim>\<open>api_call\<close>, which returns the code 0 for a request that
  raised (connection refused, timeout).
\<close>

fun flood_loop :: "int list \<Rightarrow> int \<times> int \<times> int \<Rightarrow> int \<times> int \<times> int" where
  "flood_loop [] counts = counts"
| "flood_loop (code # codes) (success_count, blocked_count, error_count) =
     (if code = 200 then flood_loop codes (success_count + 1, blocked_count, error_count)
      else if code = 429 then flood_loop codes (success_count, blocked_count + 1, error_count)
      else flood_loop codes (success_count, blocked_count, error_count + 1))"

definition spam_flooding_event :: "(nat \<Rightarrow> int) \<Rightarrow> string \<Rightarrow> AttackEvent" where
  "spam_flooding_event responses node_name =
     (case flood_loop (map responses [0..<20]) (0, 0, 0) of
        (success_count, blocked_count, error_count) \<Rightarrow>
          \<lparr>ev_node = node_name, ev_attack_type = ''spam_flooding'',
           ev_result = Flood success_count blocked_count error_count,
           ev_response_code = (if blocked_count > 0 then 429 else 200)\<rparr>)"

definition attack_spam_flooding :: "env \<Rightarrow> tester \<Rightarrow> string \<Rightarrow> tester" where
  "attack_spam_flooding e self node_name =
     self\<lparr>attack_events := attack_events self
            @ [spam_flooding_event (env_api e node_name ''spam_flooding'') node_name]\<rparr>"

text \<open>
  \<^verbatim>\<open>attack_false_information\<close>: four bulletins, the event holds the list of their codes;
  \<^verbatim>\<open>response_code\<close> keeps its default 0.
\<close>

definition attack_false_information :: "env \<Rightarrow> tester \<Rightarrow> string \<Rightarrow> tester" where
  "attack_false_information e self node_name =
     self\<lparr>attack_events := attack_events self
            @ [\<lparr>ev_node = node_name, ev_attack_type = ''false_information'',
                ev_result = Codes (map (env_api e node_name ''false_information'') [0..<4]),
                ev_response_code = 0\<rparr>]\<rparr>"

text \<open>\<^verbatim>\<open>attack_protocol_abuse\<close>: five requests; the message holds their number only.\<close>

definition attack_protocol_abuse :: "env \<Rightarrow> tester \<Rightarrow> string \<Rightarrow> tester" where
  "attack_protocol_abuse e self node_name =
     self\<lparr>attack_events := attack_events self
            @ [\<lparr>ev_node = node_name, ev_attack_type = ''protocol_abuse'',
                ev_result = Abuse (length (map (env_api e node_name ''protocol_abuse'') [0..<5])),
                ev_response_code = 0\<rparr>]\<rparr>"

text \<open>\<^verbatim>\<open>attack_replay\<close>: the same bulletin ten times; the message holds the number of codes 200.\<close>

definition attack_replay :: "env \<Rightarrow> tester \<Rightarrow> string \<Rightarrow> tester" where
  "attack_replay e self node_name =
     self\<lparr>attack_events := attack_events self
            @ [\<lparr>ev_node = node_name, ev_attack_type = ''replay_attack'',
                ev_result = Replay (length (filter (\<lambda>c. c = 200)
                   (map (env_api e node_name ''replay_attack'') [0..<10]))),
                ev_response_code = 0\<rparr>]\<rparr>"

text \<open>
  \<^verbatim>\<open>attack_sybil_attempt\<close>: five bulletins under fake identities; each result is the text
  \<^verbatim>\<open>f"{fake_id}:{code}"\<close>, and the message holds the number of results that contain
  \<^verbatim>\<open>'200'\<close>.
\<close>

fun contains :: "string \<Rightarrow> string \<Rightarrow> bool" where
  "contains [] sub = (sub = [])"
| "contains (c # cs) sub = (take (length sub) (c # cs) = sub \<or> contains cs sub)"

definition attack_sybil_attempt :: "env \<Rightarrow> tester \<Rightarrow> string \<Rightarrow> tester" where
  "attack_sybil_attempt e self node_name =
     (let results = map (\<lambda>i. ''fake_node_'' @ show_int (int i) @ '':''
                              @ show_int (env_api e node_name ''sybil_attempt'' i)) [0..<5]
      in self\<lparr>attack_events := attack_events self
            @ [\<lparr>ev_node = node_name, ev_attack_type = ''sybil_attempt'',
                ev_result = Sybil (length (filter (\<lambda>r. contains r ''200'') results)),
                ev_response_code = 0\<rparr>]\<rparr>)"

text \<open>
  \<^verbatim>\<open>attack_ddos_attempt\<close>: thirty requests to each of three targets, one worker per
  target; the message holds the number of codes 200 per target. The workers share nothing,
  so the \<open>i\<close>-th request to the \<open>t\<close>-th target is request \<open>30 t + i\<close> of the attack.
\<close>

definition attack_ddos_attempt :: "env \<Rightarrow> tester \<Rightarrow> string \<Rightarrow> tester" where
  "attack_ddos_attempt e self node_name =
     (let flood_node = (\<lambda>t. length (filter (\<lambda>c. c = 200)
            (map (\<lambda>i. env_api e node_name ''ddos_attempt'' (30 * t + i)) [0..<30])))
      in self\<lparr>attack_events := attack_events self
            @ [\<lparr>ev_node = node_name, ev_attack_type = ''ddos_attempt'',
                ev_result = Targets [(''genesis'', flood_node 0), (''node1'', flood_node 1),
                                     (''node2'', flood_node 2)],
                ev_response_code = 0\<rparr>]\<rparr>)"

text \<open>
  \<^verbatim>\<open>
  def execute_malicious_attacks(self):
      attacks = [self.attack_spam_flooding, self.attack_false_information,
                 self.attack_protocol_abuse, self.attack_replay,
                 self.attack_sybil_attempt, self.attack_ddos_attempt]
      for node_name in ["malicious1", "malicious2"]:
          for attack_func in attacks:
              try:
                  attack_func(node_name)
                  time.sleep(0.5)
              except Exception as e:
                  log(...)
  \<close>
  The twelve calls in their order. The handler does not catch \<^verbatim>\<open>KeyboardInterrupt\<close>:
  an interrupt while call number \<open>j\<close> runs ends the stage with the events of the first
  \<open>j\<close> calls appended (an attack appends its event as its last step).
\<close>

definition attacks :: "(env \<Rightarrow> tester \<Rightarrow> string \<Rightarrow> tester) list" where
  "attacks = [attack_spam_flooding, attack_false_information, attack_protocol_abuse,
              attack_replay, attack_sybil_attempt, attack_ddos_attempt]"

definition attack_calls :: "((env \<Rightarrow> tester \<Rightarrow> string \<Rightarrow> tester) \<times> string) list" where
  "attack_calls =
     concat (map (\<lambda>node_name. map (\<lambda>attack_func. (attack_func, node_name)) attacks)
       [''malicious1'', ''malicious2''])"

fun run_attacks :: "env \<Rightarrow> tester \<Rightarrow> ((env \<Rightarrow> tester \<Rightarrow> string \<Rightarrow> tester) \<times> string) list \<Rightarrow> tester" where
  "run_attacks e self [] = self"
| "run_attacks e self ((attack_func, node_name) # rest) =
     run_attacks e (attack_func e self node_name) rest"

text \<open>What every attack does to the state: it appends one event and changes nothing else.\<close>

definition appends_event :: "(env \<Rightarrow> tester \<Rightarrow> string \<Rightarrow> tester) \<Rightarrow> bool" where
  "appends_event attack_func \<longleftrightarrow>
     (\<forall>e self node_name.
        procs (attack_func e self node_name) = procs self
      \<and> os_trace (attack_func e self node_name) = os_trace self
      \<and> report_stages (attack_func e self node_name) = report_stages self
      \<and> report_file (attack_func e self node_name) = report_file self
      \<and> network_stats (attack_func e self node_name) = network_stats self
      \<and> length (attack_events (attack_func e self node_name)) = Suc (length (attack_events self)))"

definition execute_malicious_attacks :: "env \<Rightarrow> tester \<Rightarrow> tester" where
  "execute_malicious_attacks e self = run_attacks e self attack_calls"

subsection \<open>The stages\<close>

text \<open>
  \<^verbatim>\<open>
  def stage_1_genesis(self):
      if not self.start_node("genesis"):
          return False
      if self.wait_for_node("genesis", timeout=30):
          self.report["stages"].append({"stage": "genesis", "status": "success", ...})
          return True
      else:
          return False
  \<close>
\<close>

definition stage_1_genesis :: "env \<Rightarrow> tester \<Rightarrow> bool \<times> tester" where
  "stage_1_genesis e self =
     (case start_node e self ''genesis'' of
        (False, self') \<Rightarrow> (False, self')
      | (True, self') \<Rightarrow>
          if wait_for_node e ''genesis''
          then (True, self'\<lparr>report_stages := report_stages self' @ [(''genesis'', ''success'')]\<rparr>)
          else (False, self'))"

text \<open>
  \<^verbatim>\<open>
  def stage_2_normal_nodes(self):
      for node_name in ["node1", "node2"]:
          if self.start_node(node_name, bootstrap_addr):
              if self.wait_for_node(node_name, timeout=30): log(...)
              else: log(...)
          time.sleep(2)
      self.report["stages"].append({"stage": "normal_nodes", "status": "success", ...})
      return True
  \<close>
  \<^verbatim>\<open>stage_3_malicious_nodes\<close> is the same loop over \<^verbatim>\<open>["malicious1", "malicious2"]\<close> with
  the stage name \<^verbatim>\<open>malicious_nodes\<close>.
\<close>

fun start_each :: "env \<Rightarrow> tester \<Rightarrow> string list \<Rightarrow> tester" where
  "start_each e self [] = self"
| "start_each e self (node_name # rest) = start_each e (snd (start_node e self node_name)) rest"

definition stage_2_normal_nodes :: "env \<Rightarrow> tester \<Rightarrow> tester" where
  "stage_2_normal_nodes e self =
     (let self' = start_each e self [''node1'', ''node2'']
      in self'\<lparr>report_stages := report_stages self' @ [(''normal_nodes'', ''success'')]\<rparr>)"

definition stage_3_malicious_nodes :: "env \<Rightarrow> tester \<Rightarrow> tester" where
  "stage_3_malicious_nodes e self =
     (let self' = start_each e self [''malicious1'', ''malicious2'']
      in self'\<lparr>report_stages := report_stages self' @ [(''malicious_nodes'', ''success'')]\<rparr>)"

subsection \<open>Report and run\<close>

text \<open>\<^verbatim>\<open>generate_report\<close> fills the report and dumps it to a new file in \<^verbatim>\<open>test_logs\<close>.\<close>

definition generate_report :: "tester \<Rightarrow> tester" where
  "generate_report self =
     self\<lparr>report_file := Some \<lparr>rep_stages = report_stages self,
                                rep_attacks = attack_events self,
                                rep_samples = length (network_stats self)\<rparr>\<rparr>"

text \<open>
  \<^verbatim>\<open>
  def run_test(self):
      try:
          if not self.stage_1_genesis():
              self.stop_all()
              return
          time.sleep(3); self.print_network_status()
          self.stage_2_normal_nodes(); time.sleep(3); self.print_network_status()
          self.stage_3_malicious_nodes(); time.sleep(3); self.print_network_status()
          self.execute_malicious_attacks()
          self.print_network_status()
          self.generate_report()
      except KeyboardInterrupt:
          log("...", "WARN")
      except Exception as e:
          log(...); traceback.print_exc()
      finally:
          self.stop_all()
  \<close>
  The operator's interrupt is a parameter: \<open>None\<close> for a run that is not interrupted,
  \<open>Some j\<close> for a \<^verbatim>\<open>KeyboardInterrupt\<close> that arrives in the attack stage while call number
  \<open>j\<close> of the twelve runs (for \<open>j\<close> of twelve or more the stage is over before it
  arrives, and the run is not interrupted). Interrupts at other points of the run are not
  modelled.
\<close>

definition run_test :: "env \<Rightarrow> nat option \<Rightarrow> tester \<Rightarrow> tester" where
  "run_test e interrupt self =
     (case stage_1_genesis e self of
        (False, s1) \<Rightarrow> stop_all e (stop_all e s1)
      | (True, s1) \<Rightarrow>
          (let s2 = print_network_status e s1;
               s3 = print_network_status e (stage_2_normal_nodes e s2);
               s4 = print_network_status e (stage_3_malicious_nodes e s3)
           in case interrupt of
                None \<Rightarrow>
                  stop_all e (generate_report
                    (print_network_status e (execute_malicious_attacks e s4)))
              | Some j \<Rightarrow>
                  if j < length attack_calls
                  then stop_all e (run_attacks e s4 (take j attack_calls))
                  else stop_all e (generate_report
                    (print_network_status e (execute_malicious_attacks e s4)))))"

section \<open>Security report of malicious\_attack\_demo.py\<close>

text \<open>
  \<^verbatim>\<open>MaliciousAttacks.results\<close> is a list of dictionaries, one per attack, told apart by
  their \<^verbatim>\<open>attack_type\<close> entry. Each constructor carries the counters that
  \<^verbatim>\<open>generate_security_report\<close> reads from a dictionary of that type. The counters are
  Python integers.
\<close>

datatype attack_result =
    DDoS (requests_sent: int) (successful_requests: int) (failed_requests: int)
  | Injection (payloads_tested: int) (blocked_attempts: int) (successful_injections: int)
  | Unauthorized (endpoints_tested: int) (blocked_access: int) (unauthorized_success: int)
  | Exhaustion (long_requests: int)

text \<open>The three rating strings of the report, in the order good, fair, poor.\<close>

datatype rating = Good | Fair | Poor

text \<open>
  One entry of \<^verbatim>\<open>report["security_analysis"]\<close>: the rate (\<^verbatim>\<open>fail_rate\<close> or
  \<^verbatim>\<open>block_rate\<close>) and the rating. Python computes the rate by true division of two
  integers; the model keeps the exact quotient as a rational.
\<close>

record analysis =
  rate :: rat
  rating :: rating

text \<open>\<^verbatim>\<open>a / b if b > 0 else 0\<close>\<close>

definition ratio :: "int \<Rightarrow> int \<Rightarrow> rat" where
  "ratio a b = (if b > 0 then of_int a / of_int b else 0)"

text \<open>\<^verbatim>\<open>"good" if r > hi else "fair" if r > lo else "poor"\<close>\<close>

definition tier :: "rat \<Rightarrow> rat \<Rightarrow> rat \<Rightarrow> rating" where
  "tier hi lo r = (if r > hi then Good else if r > lo then Fair else Poor)"

fun is_ddos :: "attack_result \<Rightarrow> bool" where
  "is_ddos (DDoS _ _ _) = True"
| "is_ddos _ = False"

fun is_injection :: "attack_result \<Rightarrow> bool" where
  "is_injection (Injection _ _ _) = True"
| "is_injection _ = False"

fun is_unauthorized :: "attack_result \<Rightarrow> bool" where
  "is_unauthorized (Unauthorized _ _ _) = True"
| "is_unauthorized _ = False"

text \<open>
  The three blocks that fill \<^verbatim>\<open>report["security_analysis"]\<close>. Each takes the first
  result of its attack type, if there is one, and adds one entry; the dictionary keeps the
  order of insertion, so it is an association list.
\<close>

definition ddos_resistance :: "attack_result list \<Rightarrow> (string \<times> analysis) list" where
  "ddos_resistance results =
     (case filter is_ddos results of
        [] \<Rightarrow> []
      | ddos # _ \<Rightarrow>
          (let fail_rate = ratio (failed_requests ddos) (requests_sent ddos)
           in [(''ddos_resistance'',
                \<lparr>rate = fail_rate, rating = tier (5 / 10) (2 / 10) fail_rate\<rparr>)]))"

definition input_validation :: "attack_result list \<Rightarrow> (string \<times> analysis) list" where
  "input_validation results =
     (case filter is_injection results of
        [] \<Rightarrow> []
      | injection # _ \<Rightarrow>
          (let block_rate = ratio (blocked_attempts injection) (payloads_tested injection)
           in [(''input_validation'',
                \<lparr>rate = block_rate, rating = tier (8 / 10) (5 / 10) block_rate\<rparr>)]))"

definition access_control :: "attack_result list \<Rightarrow> (string \<times> analysis) list" where
  "access_control results =
     (case filter is_unauthorized results of
        [] \<Rightarrow> []
      | auth # _ \<Rightarrow>
          (let block_rate = ratio (blocked_access auth) (endpoints_tested auth)
           in [(''access_control'',
                \<lparr>rate = block_rate, rating = tier (9 / 10) (7 / 10) block_rate\<rparr>)]))"

definition security_analysis :: "attack_result list \<Rightarrow> (string \<times> analysis) list" where
  "security_analysis results =
     ddos_resistance results @ input_validation results @ access_control results"




section \<open>The attacks of malicious\_attack\_demo.py and simple\_malicious\_test.py\<close>

text \<open>
  What a call of \<^verbatim>\<open>requests.get\<close> or \<^verbatim>\<open>requests.post\<close> gives: a response with its status
  code, the exception \<^verbatim>\<open>requests.exceptions.Timeout\<close>, or another exception (connection
  refused).
\<close>

datatype reply = Reply int | Timeout | ConnectionError

subsection \<open>\<^verbatim>\<open>SimpleNodeTester.perform_flood_attack\<close>\<close>

text \<open>
  \<^verbatim>\<open>
  attack_result = {"type": "flood", "requests_sent": 0, "failed": 0, "success": 0}
  for i in range(50):
      try:
          response = requests.get(f"{node_url}/health", headers=headers, timeout=1)
          attack_result["requests_sent"] += 1
          if response.status_code == 200:
              attack_result["success"] += 1
          else:
              attack_result["failed"] += 1
      except:
          attack_result["failed"] += 1
  self.attack_results.append(attack_result)
  \<close>
\<close>

record flood_result =
  fl_requests_sent :: int
  fl_failed :: int
  fl_success :: int

fun flood_request :: "reply \<Rightarrow> flood_result \<Rightarrow> flood_result" where
  "flood_request (Reply code) r =
     (let r' = r\<lparr>fl_requests_sent := fl_requests_sent r + 1\<rparr>
      in if code = 200 then r'\<lparr>fl_success := fl_success r' + 1\<rparr>
         else r'\<lparr>fl_failed := fl_failed r' + 1\<rparr>)"
| "flood_request _ r = r\<lparr>fl_failed := fl_failed r + 1\<rparr>"

definition perform_flood_attack :: "(nat \<Rightarrow> reply) \<Rightarrow> flood_result" where
  "perform_flood_attack replies =
     fold flood_request (map replies [0..<50])
       \<lparr>fl_requests_sent = 0, fl_failed = 0, fl_success = 0\<rparr>"

subsection \<open>\<^verbatim>\<open>MaliciousAttacks.attack_1_ddos_simulation\<close>\<close>

text \<open>
  \<^verbatim>\<open>
  def send_flood_request():
      try:
          response = requests.get(f"{self.node_url}/health", timeout=2)
          attack_result["requests_sent"] += 1
          if response.status_code == 200:
              attack_result["successful_requests"] += 1
              attack_result["response_times"].append(response_time)
          else:
              attack_result["failed_requests"] += 1
      except Exception as e:
          attack_result["failed_requests"] += 1

  with ThreadPoolExecutor(max_workers=20) as executor:
      futures = [executor.submit(send_flood_request) for _ in range(100)]
      for future in futures:
          try:
              future.result(timeout=1)
          except:
              attack_result["failed_requests"] += 1
  \<close>
  \<^verbatim>\<open>send_flood_request\<close> catches its own exceptions, so \<^verbatim>\<open>future.result(timeout=1)\<close>
  raises only when the request is not finished after the second the main thread waits for
  it. The executor is left only when all hundred requests have run, so each request counts
  once in the worker, and once more in the main thread when the wait for it timed out. A
  request is given by its reply and by whether the wait for it timed out; each increment
  is taken as one step.
\<close>

fun send_flood_request :: "reply \<Rightarrow> attack_result \<Rightarrow> attack_result" where
  "send_flood_request (Reply code) (DDoS sent successful failed) =
     (if code = 200 then DDoS (sent + 1) (successful + 1) failed
      else DDoS (sent + 1) successful (failed + 1))"
| "send_flood_request _ (DDoS sent successful failed) = DDoS sent successful (failed + 1)"
| "send_flood_request _ r = r"

fun await_result :: "bool \<Rightarrow> attack_result \<Rightarrow> attack_result" where
  "await_result True (DDoS sent successful failed) = DDoS sent successful (failed + 1)"
| "await_result _ r = r"

definition attack_1_ddos_simulation :: "(nat \<Rightarrow> reply \<times> bool) \<Rightarrow> attack_result" where
  "attack_1_ddos_simulation requests =
     fold (\<lambda>(answer, timed_out) r. await_result timed_out (send_flood_request answer r))
       (map requests [0..<100]) (DDoS 0 0 0)"

subsection \<open>\<^verbatim>\<open>MaliciousAttacks.attack_2_malformed_data\<close>\<close>

text \<open>
  \<^verbatim>\<open>
  for payload_info in malicious_payloads:          # five payloads
      try:
          endpoints = ["/api/v1/message", "/api/v1/neighbor/add", "/health"]
          for endpoint in endpoints:
              try:
                  response = requests.get(...) or requests.post(...)
                  attack_result["payloads_tested"] += 1
                  detail = {..., "blocked": response.status_code in [400, 401, 403, 422, 429]}
                  if detail["blocked"]:
                      attack_result["blocked_attempts"] += 1
                  elif response.status_code == 200:
                      attack_result["successful_injections"] += 1
                  attack_result["details"].append(detail)
              except requests.exceptions.Timeout:
                  attack_result["blocked_attempts"] += 1
              except Exception as e:
                  pass
      except Exception as e:
          pass
  \<close>
  The fifteen requests in their order; the result holds the three counters.
\<close>

fun inject :: "reply \<Rightarrow> attack_result \<Rightarrow> attack_result" where
  "inject (Reply code) (Injection tested blocked successful) =
     (if code \<in> set [400, 401, 403, 422, 429] then Injection (tested + 1) (blocked + 1) successful
      else if code = 200 then Injection (tested + 1) blocked (successful + 1)
      else Injection (tested + 1) blocked successful)"
| "inject Timeout (Injection tested blocked successful) = Injection tested (blocked + 1) successful"
| "inject ConnectionError (Injection tested blocked successful) = Injection tested blocked successful"
| "inject _ r = r"

definition attack_2_malformed_data :: "(nat \<Rightarrow> reply) \<Rightarrow> attack_result" where
  "attack_2_malformed_data replies = fold inject (map replies [0..<15]) (Injection 0 0 0)"

section \<open>Monitoring in the Docker variant (heterogeneous\_network\_test.py)\<close>

record docker_node =
  dn_http_port :: int
  dn_admin_port :: int
  dn_is_malicious :: bool
  dn_ip :: string

definition NODES :: "(string \<times> docker_node) list" where
  "NODES =
     [(''genesis'', \<lparr>dn_http_port = 18345, dn_admin_port = 18080, dn_is_malicious = False,
         dn_ip = ''172.20.0.10''\<rparr>),
      (''node1'', \<lparr>dn_http_port = 18346, dn_admin_port = 18081, dn_is_malicious = False,
         dn_ip = ''172.20.0.11''\<rparr>),
      (''node2'', \<lparr>dn_http_port = 18347, dn_admin_port = 18082, dn_is_malicious = False,
         dn_ip = ''172.20.0.12''\<rparr>),
      (''malicious1'', \<lparr>dn_http_port = 18348, dn_admin_port = 18083, dn_is_malicious = True,
         dn_ip = ''172.20.0.13''\<rparr>),
      (''malicious2'', \<lparr>dn_http_port = 18349, dn_admin_port = 18084, dn_is_malicious = True,
         dn_ip = ''172.20.0.14''\<rparr>)]"

text \<open>
  \<^verbatim>\<open>HeterogeneousNetworkTest.monitor_network\<close> is the loop of the local test over
  \<^verbatim>\<open>NODES.keys()\<close>, with the handler
  \<^verbatim>\<open>
          except:
              neighbors[node_name] = 0
  \<close>
  It reads and appends to \<^verbatim>\<open>self.network_stats\<close> only.
\<close>

definition docker_monitor_network ::
  "env \<Rightarrow> NetworkStats list \<Rightarrow> NetworkStats \<times> NetworkStats list" where
  "docker_monitor_network e stats_so_far =
     (let k = length stats_so_far;
          (healthy, neighbors) =
            monitor_loop 0 (env_health e k) (env_neighbors e k) (map fst NODES) (0, []);
          stats = \<lparr>total_nodes = int (length NODES), healthy_nodes = healthy,
                   neighbors_count = neighbors\<rparr>
      in (stats, stats_so_far @ [stats]))"

section \<open>Properties\<close>

subsection \<open>Port search\<close>

lemma connect_ex_cases:
  "connect_ex host port =
     (if port < 0 \<or> 65535 < port then Inl OverflowError
      else if host port then Inr 0 else Inr 111)"
  by (simp add: connect_ex_def ECONNREFUSED_def)

lemma find_loop_done:
  "\<not> int (length ports) < count \<Longrightarrow> find_loop host count ports port = Some ports"
  by (subst find_loop.simps) simp

lemma find_loop_skip:
  "int (length ports) < count \<Longrightarrow> port < 0 \<or> 65535 < port \<or> host port \<Longrightarrow>
     find_loop host count ports port = find_loop host count ports (port + 1)"
  by (subst find_loop.simps) (auto simp: connect_ex_cases)

lemma find_loop_take:
  "int (length ports) < count \<Longrightarrow> 0 \<le> port \<Longrightarrow> port \<le> 65535 \<Longrightarrow> \<not> host port \<Longrightarrow>
     find_loop host count ports port = find_loop host count (ports @ [port]) (port + 1)"
  by (subst find_loop.simps) (auto simp: connect_ex_cases)

text \<open>
  The loop returns whenever enough unbound ports lie ahead of it. \<open>S\<close> is a set of unbound
  ports in \<open>[port, hi)\<close>; the measure is the distance of \<open>port\<close> to the end of the port
  range.
\<close>

lemma find_loop_returns:
  assumes "finite S"
    and "S \<subseteq> {p. port \<le> p \<and> 0 \<le> p \<and> p < hi \<and> \<not> host p}"
    and "hi \<le> 65536"
    and "count - int (length ports) \<le> int (card S)"
  shows "\<exists>rs. find_loop host count ports port = Some (ports @ rs)
          \<and> int (length (ports @ rs)) = max (int (length ports)) count
          \<and> sorted_wrt (<) rs
          \<and> (\<forall>p \<in> set rs. port \<le> p \<and> 0 \<le> p \<and> p < hi \<and> \<not> host p)"
  using assms
proof (induction "nat (65536 - port)" arbitrary: port ports S)
  case 0
  then have "65536 \<le> port" by simp
  with "0.prems"(2,3) have "S = {}" by auto
  with "0.prems"(4) have "\<not> int (length ports) < count" by simp
  then show ?case by (simp add: find_loop_done)
next
  case (Suc n)
  show ?case
  proof (cases "int (length ports) < count")
    case False
    then show ?thesis by (simp add: find_loop_done)
  next
    case more: True
    have n: "n = nat (65536 - (port + 1))" using Suc.hyps(2) by simp
    show ?thesis
    proof (cases "port < 0 \<or> 65535 < port \<or> host port")
      case True
      then have "port \<notin> S" using Suc.prems(2,3) by auto
      with Suc.prems(2) have sub: "S \<subseteq> {p. port + 1 \<le> p \<and> 0 \<le> p \<and> p < hi \<and> \<not> host p}"
        by (auto simp: order.order_iff_strict)
      from Suc.hyps(1) [OF n Suc.prems(1) sub Suc.prems(3) Suc.prems(4)]
      obtain rs where rs: "find_loop host count ports (port + 1) = Some (ports @ rs)"
        "int (length (ports @ rs)) = max (int (length ports)) count"
        "sorted_wrt (<) rs"
        "\<forall>p \<in> set rs. port + 1 \<le> p \<and> 0 \<le> p \<and> p < hi \<and> \<not> host p"
        by blast
      from rs(4) have "\<forall>p \<in> set rs. port \<le> p \<and> 0 \<le> p \<and> p < hi \<and> \<not> host p" by auto
      moreover have "find_loop host count ports port = find_loop host count ports (port + 1)"
        using more True by (rule find_loop_skip [of ports count port host])
      ultimately show ?thesis using rs(1,2,3) by auto
    next
      case False
      then have free: "0 \<le> port" "port \<le> 65535" "\<not> host port" by auto
      let ?S = "S - {port}"
      have fin: "finite ?S" using Suc.prems(1) by simp
      have sub: "?S \<subseteq> {p. port + 1 \<le> p \<and> 0 \<le> p \<and> p < hi \<and> \<not> host p}"
        using Suc.prems(2) by (auto simp: order.order_iff_strict)
      have "card S \<le> Suc (card ?S)"
      proof (cases "port \<in> S")
        case True
        with Suc.prems(1) show ?thesis by (simp add: card_Suc_Diff1)
      next
        case False
        then show ?thesis by simp
      qed
      with Suc.prems(4) have cnt: "count - int (length (ports @ [port])) \<le> int (card ?S)"
        by simp
      have "S \<noteq> {}" using more Suc.prems(4) by auto
      then obtain q where "q \<in> S" by blast
      with Suc.prems(2) have "port < hi" by auto
      from Suc.hyps(1) [OF n fin sub Suc.prems(3) cnt]
      obtain rs where rs:
        "find_loop host count (ports @ [port]) (port + 1) = Some ((ports @ [port]) @ rs)"
        "int (length ((ports @ [port]) @ rs)) = max (int (length (ports @ [port]))) count"
        "sorted_wrt (<) rs"
        "\<forall>p \<in> set rs. port + 1 \<le> p \<and> 0 \<le> p \<and> p < hi \<and> \<not> host p"
        by blast
      have 1: "find_loop host count ports port = Some (ports @ (port # rs))"
        using find_loop_take [of ports count port host] more free rs(1) by simp
      have 2: "int (length (ports @ (port # rs))) = max (int (length ports)) count"
        using rs(2) more by simp
      have 3: "sorted_wrt (<) (port # rs)" using rs(3,4) by auto
      have 4: "\<forall>p \<in> set (port # rs). port \<le> p \<and> 0 \<le> p \<and> p < hi \<and> \<not> host p"
        using rs(4) free \<open>port < hi\<close> by auto
      from 1 2 3 4 show ?thesis by blast
    qed
  qed
qed

lemma find_available_port_window:
  assumes "finite S"
    and "S \<subseteq> {p. start_port \<le> p \<and> 0 \<le> p \<and> p < hi \<and> \<not> host p}"
    and "hi \<le> 65536"
    and "count \<le> int (card S)"
  shows "\<exists>ports. find_available_port host start_port count = Some ports
          \<and> length ports = nat count
          \<and> sorted_wrt (<) ports
          \<and> (\<forall>p \<in> set ports. start_port \<le> p \<and> 0 \<le> p \<and> p < hi \<and> \<not> host p)"
proof -
  from assms(4) have "count - int (length ([] :: int list)) \<le> int (card S)" by simp
  from find_loop_returns [OF assms(1,2,3) this]
  obtain rs where rs: "find_loop host count [] start_port = Some rs"
    "int (length rs) = max 0 count" "sorted_wrt (<) rs"
    "\<forall>p \<in> set rs. start_port \<le> p \<and> 0 \<le> p \<and> p < hi \<and> \<not> host p"
    by auto
  from rs(2) have "length rs = nat count" by linarith
  with rs(1,3,4) show ?thesis by (auto simp: find_available_port_def)
qed

text \<open>
  Claim C10. Let at least \<open>count\<close> ports at or above \<open>start_port\<close> be unbound on the host
  at probe time: some finite set \<open>S\<close> of ports of the host (0..65535) at or above
  \<open>start_port\<close>, none of which accepts a connection, has at least \<open>count\<close> elements. Then
  \<^verbatim>\<open>find_available_port\<close> returns, and its result is a list of exactly \<open>count\<close> ports
  (none for a negative count) that are distinct, strictly increasing, at or above
  \<open>start_port\<close>, and unbound.
\<close>

theorem find_available_port_returns:
  assumes "finite S"
    and "S \<subseteq> {p. start_port \<le> p \<and> 0 \<le> p \<and> p \<le> 65535 \<and> \<not> host p}"
    and "count \<le> int (card S)"
  shows "\<exists>ports. find_available_port host start_port count = Some ports
          \<and> length ports = nat count
          \<and> distinct ports
          \<and> sorted_wrt (<) ports
          \<and> (\<forall>p \<in> set ports. start_port \<le> p \<and> \<not> host p)"
proof -
  from assms(2) have "S \<subseteq> {p. start_port \<le> p \<and> 0 \<le> p \<and> p < 65536 \<and> \<not> host p}"
    by auto
  from find_available_port_window [OF assms(1) this _ assms(3)]
  obtain ports where ports: "find_available_port host start_port count = Some ports"
    "length ports = nat count" "sorted_wrt (<) ports"
    "\<forall>p \<in> set ports. start_port \<le> p \<and> 0 \<le> p \<and> p < 65536 \<and> \<not> host p"
    by auto
  from ports(3) have "distinct ports" by (simp add: strict_sorted_iff)
  with ports show ?thesis by auto
qed

text \<open>
  The theorem on a host where only port 9001 accepts connections: three ports from 9000
  on are 9000, 9002 and 9003.
\<close>

theorem find_available_port_returns_witness:
  "finite {9000, 9002, 9003 :: int}
   \<and> 3 \<le> int (card {9000, 9002, 9003 :: int})
   \<and> find_available_port (\<lambda>p. p = 9001) 9000 3 = Some [9000, 9002, 9003]
   \<and> distinct [9000, 9002, 9003 :: int]
   \<and> sorted_wrt (<) [9000, 9002, 9003 :: int]"
proof -
  have e: "find_available_port (\<lambda>p. p = 9001) 9000 3 = Some [9000, 9002, 9003]"
    by code_simp
  have "\<exists>ports. find_available_port (\<lambda>p. p = 9001) 9000 3 = Some ports
          \<and> length ports = nat 3 \<and> distinct ports \<and> sorted_wrt (<) ports
          \<and> (\<forall>p \<in> set ports. 9000 \<le> p \<and> \<not> p = 9001)"
    by (rule find_available_port_returns [of "{9000, 9002, 9003}"]) simp_all
  with e show ?thesis by simp
qed

subsection \<open>The port search of network\_manager.py\<close>

text \<open>The first loop never returns once it is past the port range with ports still to find.\<close>

lemma find_loop_past_range:
  assumes "find_loop host count ports port = Some rs"
  shows "\<not> (65535 < port \<and> int (length ports) < count)"
proof (rule find_loop.raw_induct
    [where P = "\<lambda>host count ports port rs. \<not> (65535 < port \<and> int (length ports) < count)",
      OF _ assms])
  fix loop :: "host \<Rightarrow> int \<Rightarrow> int list \<Rightarrow> int \<Rightarrow> int list option"
    and host count ports port rs
  assume IH: "\<And>host count ports port y. loop host count ports port = Some y \<Longrightarrow>
      \<not> (65535 < port \<and> int (length ports) < count)"
    and body: "(if int (length ports) < count
      then case connect_ex host port of
           Inl e \<Rightarrow> loop host count ports (port + 1)
           | Inr result \<Rightarrow>
               if result \<noteq> 0
               then loop host count (ports @ [port]) (port + 1)
               else loop host count ports (port + 1)
      else Some ports) = Some rs"
  show "\<not> (65535 < port \<and> int (length ports) < count)"
  proof
    assume a: "65535 < port \<and> int (length ports) < count"
    with body have "loop host count ports (port + 1) = Some rs"
      by (simp add: connect_ex_cases)
    from IH [OF this] a show False by simp
  qed
qed

text \<open>From a port that is not negative on, the two loops agree whenever the first returns.\<close>

lemma nm_find_loop_agrees:
  "0 \<le> port \<Longrightarrow> find_loop host count ports port = Some rs \<Longrightarrow>
     nm_find_loop host count ports port = Inr rs"
proof (induction host count ports port rule: nm_find_loop.induct)
  case (1 host count ports port)
  show ?case
  proof (cases "int (length ports) < count")
    case False
    with "1.prems"(2) show ?thesis by (simp add: find_loop_done)
  next
    case more: True
    with find_loop_past_range [OF "1.prems"(2)] have le: "port \<le> 65535" by simp
    show ?thesis
    proof (cases "host port")
      case True
      with "1.prems"(1) le have u: "is_port_in_use host port = Inr True"
        by (simp add: is_port_in_use_def connect_ex_cases)
      have "find_loop host count ports (port + 1) = Some rs"
        using find_loop_skip [of ports count port host] more True "1.prems"(2) by simp
      with "1.IH"(2) [OF more u] "1.prems"(1) have "nm_find_loop host count ports (port + 1) = Inr rs"
        by simp
      with more u show ?thesis by simp
    next
      case False
      with "1.prems"(1) le have u: "is_port_in_use host port = Inr False"
        by (simp add: is_port_in_use_def connect_ex_cases)
      have "find_loop host count (ports @ [port]) (port + 1) = Some rs"
        using find_loop_take [of ports count port host] more False le "1.prems" by simp
      with "1.IH"(1) [OF more u] "1.prems"(1)
      have "nm_find_loop host count (ports @ [port]) (port + 1) = Inr rs"
        by simp
      with more u show ?thesis by simp
    qed
  qed
qed

text \<open>
  So, for a start port that is not negative, \<^verbatim>\<open>find_available_port\<close> of
  network\_manager.py returns the same list under the same condition; for a negative start
  port its first probe raises.
\<close>

lemma nm_find_available_port_returns:
  assumes "finite S"
    and "S \<subseteq> {p. start_port \<le> p \<and> 0 \<le> p \<and> p \<le> 65535 \<and> \<not> host p}"
    and "count \<le> int (card S)"
    and "0 \<le> start_port"
  shows "\<exists>ports. nm_find_available_port host start_port count = Inr ports
          \<and> length ports = nat count
          \<and> sorted_wrt (<) ports
          \<and> (\<forall>p \<in> set ports. start_port \<le> p \<and> \<not> host p)"
proof -
  from assms(2) have "S \<subseteq> {p. start_port \<le> p \<and> 0 \<le> p \<and> p < 65536 \<and> \<not> host p}"
    by auto
  from find_available_port_window [OF assms(1) this _ assms(3)]
  obtain ports where ports: "find_available_port host start_port count = Some ports"
    "length ports = nat count" "sorted_wrt (<) ports"
    "\<forall>p \<in> set ports. start_port \<le> p \<and> 0 \<le> p \<and> p < 65536 \<and> \<not> host p"
    by auto
  from ports(1) have "nm_find_available_port host start_port count = Inr ports"
    unfolding find_available_port_def nm_find_available_port_def
    by (rule nm_find_loop_agrees [OF assms(4)])
  with ports show ?thesis by auto
qed

lemma nm_find_available_port_negative:
  "start_port < 0 \<Longrightarrow> 0 < count \<Longrightarrow>
     nm_find_available_port host start_port count = Inl OverflowError"
  by (simp add: nm_find_available_port_def is_port_in_use_def connect_ex_cases)

subsection \<open>Ports of the node descriptors\<close>





text \<open>
  \<^verbatim>\<open>generate_node_configs\<close> adds the node's index to the two base ports. The p2p ports
  are distinct among themselves, and so are the http ports; a p2p port and an http port
  differ when the bases differ by at least \<^verbatim>\<open>node_count\<close>, and may coincide otherwise.
\<close>

lemma generate_node_configs_p2p:
  "map nc_p2p_port (generate_node_configs c)
     = map (\<lambda>i. base_p2p_port c + i) (0 # [1..node_count c - 1])"
  by (simp add: generate_node_configs_def Let_def comp_def)

lemma generate_node_configs_http:
  "map nc_http_port (generate_node_configs c)
     = map (\<lambda>i. base_http_port c + i) (0 # [1..node_count c - 1])"
  by (simp add: generate_node_configs_def Let_def comp_def)

lemma generate_node_configs_distinct:
  "distinct (map nc_p2p_port (generate_node_configs c))
   \<and> distinct (map nc_http_port (generate_node_configs c))"
  unfolding generate_node_configs_p2p generate_node_configs_http
  by (auto simp: distinct_map inj_on_def)

lemma generate_node_configs_disjoint:
  assumes "max 1 (node_count c) \<le> \<bar>base_http_port c - base_p2p_port c\<bar>"
  shows "set (map nc_p2p_port (generate_node_configs c))
           \<inter> set (map nc_http_port (generate_node_configs c)) = {}"
  unfolding generate_node_configs_p2p generate_node_configs_http
  using assms by auto

lemma generate_node_configs_shared_port:
  "map (\<lambda>n. (nc_p2p_port n, nc_http_port n))
     (generate_node_configs \<lparr>network_name = ''testnet'', base_dir = ''./testnet'', node_count = 2,
        base_p2p_port = 9000, base_http_port = 9001, genesis_node_id = ''genesis-node-001''\<rparr>)
     = [(9000, 9001), (9001, 9002)]"
  by (simp add: generate_node_configs_def Let_def upto.simps)

subsection \<open>Stopping a node\<close>

lemma keys_delete: "fst ` set (AList.delete k al) = fst ` set al - {k}"
  by (induction al) auto





text \<open>
  When \<^verbatim>\<open>terminate()\<close> or \<^verbatim>\<open>kill()\<close> raises, the handler catches the exception: the call
  returns \<open>False\<close> and leaves the descriptor and the process table as they were.
\<close>

lemma stop_node_failure_is_caught:
  assumes "node_id node \<in> fst ` set (processes self)"
    and "react (node_id node) = Fails \<or> react (node_id node) = KillFails"
  shows "\<exists>self'. stop_node react self node = (False, node, self')
          \<and> processes self' = processes self \<and> nodes self' = nodes self"
  using assms by (auto simp: stop_node_def)

subsection \<open>Traces\<close>

lemma start_order_append: "start_order (xs @ ys) = start_order xs @ start_order ys"
  by (induction xs rule: start_order.induct) simp_all

lemma stop_order_append: "stop_order (xs @ ys) = stop_order xs @ stop_order ys"
  by (induction xs rule: stop_order.induct) simp_all

lemma delete_filter: "AList.delete k al = filter (\<lambda>p. fst p \<noteq> k) al"
  by (induction al) auto

lemma keys_update_new:
  "k \<notin> fst ` set al \<Longrightarrow> map fst (AList.update k v al) = map fst al @ [k]"
  by (induction al) auto

subsection \<open>The local test: starting and stopping\<close>

lemma local_stop_node_absent:
  "node_name \<notin> fst ` set (procs self) \<Longrightarrow> local_stop_node e self node_name = (True, self)"
  by (simp add: local_stop_node_def)

lemma local_stop_node_present:
  assumes "node_name \<in> fst ` set (procs self)"
  shows "stop_order (os_trace (snd (local_stop_node e self node_name)))
           = stop_order (os_trace self) @ [node_name]"
    and "start_order (os_trace (snd (local_stop_node e self node_name)))
           = start_order (os_trace self)"
    and "procs (snd (local_stop_node e self node_name)) = procs self
         \<or> procs (snd (local_stop_node e self node_name)) = AList.delete node_name (procs self)"
    and "env_reaction e node_name = Exits \<or> env_reaction e node_name = Hangs \<Longrightarrow>
           procs (snd (local_stop_node e self node_name)) = AList.delete node_name (procs self)"
    and "attack_events (snd (local_stop_node e self node_name)) = attack_events self"
    and "report_file (snd (local_stop_node e self node_name)) = report_file self"
    and "report_stages (snd (local_stop_node e self node_name)) = report_stages self"
  using assms
  by (cases "env_reaction e node_name";
      simp add: local_stop_node_def stop_order_append start_order_append)+

lemma stop_each_frame:
  "attack_events (stop_each e self ns) = attack_events self
   \<and> report_file (stop_each e self ns) = report_file self
   \<and> report_stages (stop_each e self ns) = report_stages self
   \<and> start_order (os_trace (stop_each e self ns)) = start_order (os_trace self)"
proof (induction ns arbitrary: self)
  case Nil
  then show ?case by simp
next
  case (Cons n ns)
  show ?case
  proof (cases "n \<in> fst ` set (procs self)")
    case True
    with Cons [of "snd (local_stop_node e self n)"] show ?thesis
      by (simp add: local_stop_node_present)
  next
    case False
    with Cons [of self] show ?thesis by (simp add: local_stop_node_absent)
  qed
qed

text \<open>When no process raises on being stopped, the loop removes the processes it visits.\<close>

lemma stop_each_procs:
  assumes "\<forall>n. env_reaction e n = Exits \<or> env_reaction e n = Hangs"
  shows "procs (stop_each e self ns) = filter (\<lambda>p. fst p \<notin> set ns) (procs self)"
proof (induction ns arbitrary: self)
  case Nil
  then show ?case by simp
next
  case (Cons n ns)
  show ?case
  proof (cases "n \<in> fst ` set (procs self)")
    case True
    from assms have "env_reaction e n = Exits \<or> env_reaction e n = Hangs" by blast
    with True have "procs (snd (local_stop_node e self n)) = AList.delete n (procs self)"
      by (simp add: local_stop_node_present)
    with Cons [of "snd (local_stop_node e self n)"] show ?thesis
      by (simp add: delete_filter conj_commute)
  next
    case False
    then have "filter (\<lambda>p. fst p \<noteq> n \<and> fst p \<notin> set ns) (procs self)
        = filter (\<lambda>p. fst p \<notin> set ns) (procs self)"
      by (intro filter_cong) auto
    with False Cons [of self] show ?thesis by (simp add: local_stop_node_absent)
  qed
qed

text \<open>The loop stops the processes of the table in the order of the list it is given.\<close>

lemma stop_each_order:
  assumes "distinct ns"
  shows "stop_order (os_trace (stop_each e self ns))
           = stop_order (os_trace self) @ filter (\<lambda>n. n \<in> fst ` set (procs self)) ns"
  using assms
proof (induction ns arbitrary: self)
  case Nil
  then show ?case by simp
next
  case (Cons n ns)
  then have d: "distinct ns" and nn: "n \<notin> set ns" by simp_all
  show ?case
  proof (cases "n \<in> fst ` set (procs self)")
    case True
    let ?s = "snd (local_stop_node e self n)"
    have "fst ` set (procs ?s) = fst ` set (procs self)
        \<or> fst ` set (procs ?s) = fst ` set (procs self) - {n}"
      using local_stop_node_present(3) [OF True, of e] keys_delete [of n "procs self"]
      by metis
    with nn
    have "\<forall>m \<in> set ns. (m \<in> fst ` set (procs ?s)) = (m \<in> fst ` set (procs self))"
      by auto
    then have "filter (\<lambda>m. m \<in> fst ` set (procs ?s)) ns
        = filter (\<lambda>m. m \<in> fst ` set (procs self)) ns"
      by (intro filter_cong) auto
    with Cons.IH [OF d, of ?s] True show ?thesis
      by (simp add: local_stop_node_present)
  next
    case False
    with Cons.IH [OF d, of self] show ?thesis by (simp add: local_stop_node_absent)
  qed
qed

lemma stop_all_order:
  "distinct (map fst (procs self)) \<Longrightarrow>
     stop_order (os_trace (stop_all e self)) = stop_order (os_trace self) @ map fst (procs self)"
  by (simp add: stop_all_def stop_each_order)

lemma stop_all_procs:
  "\<forall>n. env_reaction e n = Exits \<or> env_reaction e n = Hangs \<Longrightarrow> procs (stop_all e self) = []"
  by (simp add: stop_all_def stop_each_procs)

lemma stop_all_frame:
  "attack_events (stop_all e self) = attack_events self
   \<and> report_file (stop_all e self) = report_file self
   \<and> report_stages (stop_all e self) = report_stages self
   \<and> start_order (os_trace (stop_all e self)) = start_order (os_trace self)"
  by (simp add: stop_all_def stop_each_frame)

text \<open>
  Starting nodes that are not yet in the table: those for which \<^verbatim>\<open>Popen\<close> succeeds are
  spawned, and enter the table, in the order of the list.
\<close>

lemma start_each_order:
  assumes "distinct ns" and "set ns \<inter> fst ` set (procs self) = {}"
  shows "map fst (procs (start_each e self ns))
           = map fst (procs self) @ filter (\<lambda>n. env_popen e n \<noteq> None) ns
       \<and> start_order (os_trace (start_each e self ns))
           = start_order (os_trace self) @ filter (\<lambda>n. env_popen e n \<noteq> None) ns
       \<and> stop_order (os_trace (start_each e self ns)) = stop_order (os_trace self)
       \<and> attack_events (start_each e self ns) = attack_events self
       \<and> report_file (start_each e self ns) = report_file self
       \<and> report_stages (start_each e self ns) = report_stages self
       \<and> network_stats (start_each e self ns) = network_stats self"
  using assms
proof (induction ns arbitrary: self)
  case Nil
  then show ?case by simp
next
  case (Cons n ns)
  then have d: "distinct ns" and nn: "n \<notin> set ns" and fresh: "n \<notin> fst ` set (procs self)"
    and rest: "set ns \<inter> fst ` set (procs self) = {}"
    by auto
  show ?case
  proof (cases "env_popen e n")
    case None
    then have "snd (start_node e self n) = self" by (simp add: start_node_def)
    with Cons.IH [OF d rest] None show ?thesis by simp
  next
    case (Some proc)
    let ?s = "self\<lparr>procs := AList.update n proc (procs self),
      os_trace := os_trace self @ [Spawn n]\<rparr>"
    from Some have s: "snd (start_node e self n) = ?s" by (simp add: start_node_def)
    have keys: "map fst (procs ?s) = map fst (procs self) @ [n]"
      using fresh by (simp add: keys_update_new)
    then have "fst ` set (procs ?s) = fst ` set (procs self) \<union> {n}"
      by (metis Un_insert_right list.set(1,2) set_append set_map sup_bot.right_neutral)
    with rest nn have "set ns \<inter> fst ` set (procs ?s) = {}" by auto
    from Cons.IH [OF d this] s keys Some show ?thesis
      by (simp add: start_order_append stop_order_append)
  qed
qed


subsection \<open>The local test: what the other steps leave alone\<close>

lemma print_network_status_frame:
  "procs (print_network_status e self) = procs self
   \<and> os_trace (print_network_status e self) = os_trace self
   \<and> attack_events (print_network_status e self) = attack_events self
   \<and> report_stages (print_network_status e self) = report_stages self
   \<and> report_file (print_network_status e self) = report_file self
   \<and> length (network_stats (print_network_status e self)) = Suc (length (network_stats self))"
  by (simp add: print_network_status_def monitor_network_def Let_def split: prod.splits)

lemma attacks_append_event: "\<forall>c \<in> set attack_calls. appends_event (fst c)"
  by (simp add: attack_calls_def attacks_def appends_event_def attack_spam_flooding_def
      attack_false_information_def attack_protocol_abuse_def attack_replay_def
      attack_sybil_attempt_def attack_ddos_attempt_def Let_def)

lemma run_attacks_frame:
  assumes "\<forall>c \<in> set calls. appends_event (fst c)"
  shows "procs (run_attacks e self calls) = procs self
       \<and> os_trace (run_attacks e self calls) = os_trace self
       \<and> report_stages (run_attacks e self calls) = report_stages self
       \<and> report_file (run_attacks e self calls) = report_file self
       \<and> network_stats (run_attacks e self calls) = network_stats self
       \<and> length (attack_events (run_attacks e self calls))
           = length (attack_events self) + length calls"
  using assms
proof (induction calls arbitrary: self)
  case Nil
  then show ?case by simp
next
  case (Cons c calls)
  obtain attack_func node_name where c: "c = (attack_func, node_name)" by (cases c)
  with Cons.prems have a: "appends_event attack_func" by simp
  from Cons.prems have "\<forall>c \<in> set calls. appends_event (fst c)" by simp
  from Cons.IH [OF this, of "attack_func e self node_name"] a c show ?case
    by (simp add: appends_event_def)
qed

lemma length_attack_calls: "length attack_calls = 12"
  by (simp add: attack_calls_def attacks_def)


subsection \<open>The local test: the run\<close>

text \<open>
  When the genesis node comes up, the run reaches the attack stage in a state \<open>s\<close> that
  holds the processes of the nodes for which \<^verbatim>\<open>Popen\<close> succeeded, in the order genesis,
  node1, node2, malicious1, malicious2, with nothing stopped and no report written.
\<close>

lemma run_test_reaches_attacks:
  assumes "env_popen e ''genesis'' \<noteq> None" and "env_ready e ''genesis''"
  shows "\<exists>s. run_test e interrupt init_tester =
             (case interrupt of
                None \<Rightarrow> stop_all e (generate_report
                    (print_network_status e (execute_malicious_attacks e s)))
              | Some j \<Rightarrow>
                  if j < length attack_calls
                  then stop_all e (run_attacks e s (take j attack_calls))
                  else stop_all e (generate_report
                    (print_network_status e (execute_malicious_attacks e s))))
          \<and> map fst (procs s) = filter (\<lambda>n. env_popen e n \<noteq> None) (map fst NODES_CONFIG)
          \<and> start_order (os_trace s) = map fst (procs s)
          \<and> stop_order (os_trace s) = []
          \<and> attack_events s = []
          \<and> report_file s = None
          \<and> length (network_stats s) = 3
          \<and> report_stages s = [(''genesis'', ''success''), (''normal_nodes'', ''success''),
                                (''malicious_nodes'', ''success'')]"
proof -
  from assms(1) obtain proc where proc: "env_popen e ''genesis'' = Some proc" by blast
  define s1 where "s1 = init_tester\<lparr>procs := [(''genesis'', proc)],
    os_trace := [Spawn ''genesis''], report_stages := [(''genesis'', ''success'')]\<rparr>"
  have st1: "stage_1_genesis e init_tester = (True, s1)"
    using proc assms(2)
    by (simp add: stage_1_genesis_def start_node_def wait_for_node_def init_tester_def s1_def)
  define s2 where "s2 = print_network_status e s1"
  define t2 where "t2 = start_each e s2 [''node1'', ''node2'']"
  define s3 where "s3 = print_network_status e (stage_2_normal_nodes e s2)"
  define t3 where "t3 = start_each e s3 [''malicious1'', ''malicious2'']"
  define s4 where "s4 = print_network_status e (stage_3_malicious_nodes e s3)"
  have f2: "map fst (procs s2) = [''genesis'']" "start_order (os_trace s2) = [''genesis'']"
    "stop_order (os_trace s2) = []" "attack_events s2 = []" "report_file s2 = None"
    "report_stages s2 = [(''genesis'', ''success'')]" "length (network_stats s2) = 1"
    using print_network_status_frame [of e s1]
    by (simp_all add: s2_def s1_def init_tester_def)
  have "set (map fst (procs s2)) = {''genesis''}" using f2(1) by simp
  then have k2: "fst ` set (procs s2) = {''genesis''}" by simp
  have "distinct [''node1'', ''node2'']"
    and "set [''node1'', ''node2''] \<inter> fst ` set (procs s2) = {}"
    unfolding k2 by simp_all
  from start_each_order [OF this, of e] f2
  have g2: "map fst (procs t2) = ''genesis'' # filter (\<lambda>n. env_popen e n \<noteq> None) [''node1'', ''node2'']"
    "start_order (os_trace t2) = map fst (procs t2)"
    "stop_order (os_trace t2) = []" "attack_events t2 = []" "report_file t2 = None"
    "report_stages t2 = [(''genesis'', ''success'')]" "length (network_stats t2) = 1"
    by (simp_all add: t2_def del: start_each.simps)
  have s3: "s3 = print_network_status e
      (t2\<lparr>report_stages := report_stages t2 @ [(''normal_nodes'', ''success'')]\<rparr>)"
    by (simp add: s3_def stage_2_normal_nodes_def Let_def t2_def del: start_each.simps)
  have f3: "map fst (procs s3) = ''genesis'' # filter (\<lambda>n. env_popen e n \<noteq> None) [''node1'', ''node2'']"
    "start_order (os_trace s3) = map fst (procs s3)"
    "stop_order (os_trace s3) = []" "attack_events s3 = []" "report_file s3 = None"
    "report_stages s3 = [(''genesis'', ''success''), (''normal_nodes'', ''success'')]"
    "length (network_stats s3) = 2"
    unfolding s3
    using g2 print_network_status_frame
      [of e "t2\<lparr>report_stages := report_stages t2 @ [(''normal_nodes'', ''success'')]\<rparr>"]
    by simp_all
  have "set (map fst (procs s3)) \<subseteq> {''genesis'', ''node1'', ''node2''}"
    unfolding f3(1) by auto
  then have k3: "fst ` set (procs s3) \<subseteq> {''genesis'', ''node1'', ''node2''}" by simp
  have "distinct [''malicious1'', ''malicious2'']"
    and "set [''malicious1'', ''malicious2''] \<inter> fst ` set (procs s3) = {}"
    using k3 by auto
  from start_each_order [OF this, of e] f3
  have g3: "map fst (procs t3) = (''genesis'' # filter (\<lambda>n. env_popen e n \<noteq> None) [''node1'', ''node2''])
        @ filter (\<lambda>n. env_popen e n \<noteq> None) [''malicious1'', ''malicious2'']"
    "start_order (os_trace t3) = map fst (procs t3)"
    "stop_order (os_trace t3) = []" "attack_events t3 = []" "report_file t3 = None"
    "report_stages t3 = [(''genesis'', ''success''), (''normal_nodes'', ''success'')]"
    "length (network_stats t3) = 2"
    by (simp_all add: t3_def del: start_each.simps)
  have s4: "s4 = print_network_status e
      (t3\<lparr>report_stages := report_stages t3 @ [(''malicious_nodes'', ''success'')]\<rparr>)"
    by (simp add: s4_def stage_3_malicious_nodes_def Let_def t3_def del: start_each.simps)
  have names: "filter (\<lambda>n. env_popen e n \<noteq> None) (map fst NODES_CONFIG)
      = (''genesis'' # filter (\<lambda>n. env_popen e n \<noteq> None) [''node1'', ''node2''])
        @ filter (\<lambda>n. env_popen e n \<noteq> None) [''malicious1'', ''malicious2'']"
    using proc by (simp add: NODES_CONFIG_def)
  have f4: "map fst (procs s4) = filter (\<lambda>n. env_popen e n \<noteq> None) (map fst NODES_CONFIG)"
    "start_order (os_trace s4) = map fst (procs s4)"
    "stop_order (os_trace s4) = []" "attack_events s4 = []" "report_file s4 = None"
    "report_stages s4 = [(''genesis'', ''success''), (''normal_nodes'', ''success''),
                         (''malicious_nodes'', ''success'')]"
    "length (network_stats s4) = 3"
    unfolding s4 names
    using g3 print_network_status_frame
      [of e "t3\<lparr>report_stages := report_stages t3 @ [(''malicious_nodes'', ''success'')]\<rparr>"]
    by simp_all
  have "run_test e interrupt init_tester =
             (case interrupt of
                None \<Rightarrow> stop_all e (generate_report
                    (print_network_status e (execute_malicious_attacks e s4)))
              | Some j \<Rightarrow>
                  if j < length attack_calls
                  then stop_all e (run_attacks e s4 (take j attack_calls))
                  else stop_all e (generate_report
                    (print_network_status e (execute_malicious_attacks e s4))))"
    unfolding s4_def s3_def s2_def by (simp add: run_test_def st1 Let_def)
  with f4 show ?thesis by blast
qed

subsection \<open>An interrupted run\<close>

lemma distinct_started: "distinct (filter P (map fst NODES_CONFIG))"
  by (rule distinct_filter) (simp add: NODES_CONFIG_def)

lemma interrupted_run:
  assumes "env_popen e ''genesis'' \<noteq> None" and "env_ready e ''genesis''"
    and "j < 12"
    and "\<forall>n. env_reaction e n = Exits \<or> env_reaction e n = Hangs"
  shows "procs (run_test e (Some j) init_tester) = []
       \<and> start_order (os_trace (run_test e (Some j) init_tester))
           = filter (\<lambda>n. env_popen e n \<noteq> None) (map fst NODES_CONFIG)
       \<and> stop_order (os_trace (run_test e (Some j) init_tester))
           = start_order (os_trace (run_test e (Some j) init_tester))
       \<and> report_file (run_test e (Some j) init_tester) = None
       \<and> length (attack_events (run_test e (Some j) init_tester)) = j
       \<and> report_stages (run_test e (Some j) init_tester)
           = [(''genesis'', ''success''), (''normal_nodes'', ''success''),
              (''malicious_nodes'', ''success'')]"
proof -
  from run_test_reaches_attacks [OF assms(1,2), of "Some j"] assms(3)
  obtain s where run: "run_test e (Some j) init_tester
        = stop_all e (run_attacks e s (take j attack_calls))"
    and s: "map fst (procs s) = filter (\<lambda>n. env_popen e n \<noteq> None) (map fst NODES_CONFIG)"
      "start_order (os_trace s) = map fst (procs s)" "stop_order (os_trace s) = []"
      "attack_events s = []" "report_file s = None"
      "report_stages s = [(''genesis'', ''success''), (''normal_nodes'', ''success''),
                          (''malicious_nodes'', ''success'')]"
    by (auto simp: length_attack_calls)
  let ?a = "run_attacks e s (take j attack_calls)"
  have "\<forall>c \<in> set (take j attack_calls). appends_event (fst c)"
    using attacks_append_event by (meson in_set_takeD)
  from run_attacks_frame [OF this, of e s] assms(3) s
  have a: "procs ?a = procs s" "os_trace ?a = os_trace s" "report_stages ?a = report_stages s"
    "report_file ?a = None" "length (attack_events ?a) = j"
    by (simp_all add: length_attack_calls)
  have "distinct (map fst (procs ?a))"
    unfolding a(1) s(1) by (rule distinct_started)
  from stop_all_order [OF this, of e] stop_all_procs [OF assms(4), of ?a]
    stop_all_frame [of e ?a] a s
  show ?thesis unfolding run by simp
qed


text \<open>
  Claim C5, as the code has it. Let the genesis node come up, so that the run reaches the
  attack stage, let the operator's interrupt arrive while attack call number \<open>j\<close> of the
  twelve runs, and let no process raise on being stopped. Then \<^verbatim>\<open>run_test\<close> ends with an
  empty process table; every process that was started has been stopped (terminated, and
  killed when it did not exit within the five seconds), in the order of starting; the
  events of the first \<open>j\<close> attacks and the three stages are in the tester's state; and
  no report file has been written: \<^verbatim>\<open>generate_report\<close> is not reached.
\<close>

theorem interrupted_run_stops_nodes_without_report:
  assumes "env_popen e ''genesis'' \<noteq> None" and "env_ready e ''genesis''"
    and "j < 12"
    and "\<forall>n. env_reaction e n = Exits \<or> env_reaction e n = Hangs"
  shows "procs (run_test e (Some j) init_tester) = []
       \<and> start_order (os_trace (run_test e (Some j) init_tester))
           = filter (\<lambda>n. env_popen e n \<noteq> None) (map fst NODES_CONFIG)
       \<and> stop_order (os_trace (run_test e (Some j) init_tester))
           = start_order (os_trace (run_test e (Some j) init_tester))
       \<and> report_file (run_test e (Some j) init_tester) = None
       \<and> length (attack_events (run_test e (Some j) init_tester)) = j
       \<and> report_stages (run_test e (Some j) init_tester)
           = [(''genesis'', ''success''), (''normal_nodes'', ''success''),
              (''malicious_nodes'', ''success'')]"
  using assms by (rule interrupted_run)

text \<open>
  The theorem on a run in which every node starts and answers, every process exits when
  terminated, and the interrupt arrives during the fourth attack.
\<close>

theorem interrupted_run_stops_nodes_without_report_witness:
  "procs (run_test \<lparr>env_popen = (\<lambda>n. Some 4321), env_ready = (\<lambda>n. True),
        env_reaction = (\<lambda>n. Exits), env_health = (\<lambda>k n. Status 200),
        env_neighbors = (\<lambda>k n. Listed 2), env_api = (\<lambda>n a i. 200)\<rparr> (Some 3) init_tester) = []
   \<and> start_order (os_trace (run_test \<lparr>env_popen = (\<lambda>n. Some 4321), env_ready = (\<lambda>n. True),
        env_reaction = (\<lambda>n. Exits), env_health = (\<lambda>k n. Status 200),
        env_neighbors = (\<lambda>k n. Listed 2), env_api = (\<lambda>n a i. 200)\<rparr> (Some 3) init_tester))
       = [''genesis'', ''node1'', ''node2'', ''malicious1'', ''malicious2'']
   \<and> stop_order (os_trace (run_test \<lparr>env_popen = (\<lambda>n. Some 4321), env_ready = (\<lambda>n. True),
        env_reaction = (\<lambda>n. Exits), env_health = (\<lambda>k n. Status 200),
        env_neighbors = (\<lambda>k n. Listed 2), env_api = (\<lambda>n a i. 200)\<rparr> (Some 3) init_tester))
       = [''genesis'', ''node1'', ''node2'', ''malicious1'', ''malicious2'']
   \<and> report_file (run_test \<lparr>env_popen = (\<lambda>n. Some 4321), env_ready = (\<lambda>n. True),
        env_reaction = (\<lambda>n. Exits), env_health = (\<lambda>k n. Status 200),
        env_neighbors = (\<lambda>k n. Listed 2), env_api = (\<lambda>n a i. 200)\<rparr> (Some 3) init_tester) = None
   \<and> length (attack_events (run_test \<lparr>env_popen = (\<lambda>n. Some 4321), env_ready = (\<lambda>n. True),
        env_reaction = (\<lambda>n. Exits), env_health = (\<lambda>k n. Status 200),
        env_neighbors = (\<lambda>k n. Listed 2), env_api = (\<lambda>n a i. 200)\<rparr> (Some 3) init_tester)) = 3"
  using interrupted_run_stops_nodes_without_report [of "\<lparr>env_popen = (\<lambda>n. Some 4321), env_ready = (\<lambda>n. True),
        env_reaction = (\<lambda>n. Exits), env_health = (\<lambda>k n. Status 200),
        env_neighbors = (\<lambda>k n. Listed 2), env_api = (\<lambda>n a i. 200)\<rparr>" 3]
  by (simp add: NODES_CONFIG_def)

text \<open>
  Claim C5 as stated fails: in that interrupted run the nodes are stopped, but no report
  file is written.
\<close>

theorem interrupted_run_report_counterexample:
  "report_file (run_test \<lparr>env_popen = (\<lambda>n. Some 4321), env_ready = (\<lambda>n. True),
        env_reaction = (\<lambda>n. Exits), env_health = (\<lambda>k n. Status 200),
        env_neighbors = (\<lambda>k n. Listed 2), env_api = (\<lambda>n a i. 200)\<rparr> (Some 3) init_tester) = None
   \<and> procs (run_test \<lparr>env_popen = (\<lambda>n. Some 4321), env_ready = (\<lambda>n. True),
        env_reaction = (\<lambda>n. Exits), env_health = (\<lambda>k n. Status 200),
        env_neighbors = (\<lambda>k n. Listed 2), env_api = (\<lambda>n a i. 200)\<rparr> (Some 3) init_tester) = []
   \<and> stop_order (os_trace (run_test \<lparr>env_popen = (\<lambda>n. Some 4321), env_ready = (\<lambda>n. True),
        env_reaction = (\<lambda>n. Exits), env_health = (\<lambda>k n. Status 200),
        env_neighbors = (\<lambda>k n. Listed 2), env_api = (\<lambda>n a i. 200)\<rparr> (Some 3) init_tester))
       = [''genesis'', ''node1'', ''node2'', ''malicious1'', ''malicious2'']"
  using interrupted_run [of "\<lparr>env_popen = (\<lambda>n. Some 4321), env_ready = (\<lambda>n. True),
        env_reaction = (\<lambda>n. Exits), env_health = (\<lambda>k n. Status 200),
        env_neighbors = (\<lambda>k n. Listed 2), env_api = (\<lambda>n a i. 200)\<rparr>" 3]
  by (simp add: NODES_CONFIG_def)

subsection \<open>Ratings and the overall score\<close>

lemma ddos_resistance_entry:
  "(c, a) \<in> set (ddos_resistance results) \<Longrightarrow>
     c = ''ddos_resistance'' \<and> rating a = tier (5 / 10) (2 / 10) (rate a)"
  by (cases "filter is_ddos results") (simp_all add: ddos_resistance_def Let_def)

lemma input_validation_entry:
  "(c, a) \<in> set (input_validation results) \<Longrightarrow>
     c = ''input_validation'' \<and> rating a = tier (8 / 10) (5 / 10) (rate a)"
  by (cases "filter is_injection results") (simp_all add: input_validation_def Let_def)

lemma access_control_entry:
  "(c, a) \<in> set (access_control results) \<Longrightarrow>
     c = ''access_control'' \<and> rating a = tier (9 / 10) (7 / 10) (rate a)"
  by (cases "filter is_unauthorized results") (simp_all add: access_control_def Let_def)

lemma tier_Good: "tier hi lo r = Good \<longleftrightarrow> hi < r"
  by (simp add: tier_def)

lemma tier_Fair: "lo \<le> hi \<Longrightarrow> tier hi lo r = Fair \<longleftrightarrow> lo < r \<and> r \<le> hi"
  by (auto simp: tier_def)

lemma tier_Poor: "lo \<le> hi \<Longrightarrow> tier hi lo r = Poor \<longleftrightarrow> r \<le> lo"
  by (auto simp: tier_def)

text \<open>
  Claim C9, as the code has it. Every category that the report scores has a good threshold
  \<open>hi\<close> and a fair threshold \<open>lo\<close> (0.5 and 0.2 for \<^verbatim>\<open>ddos_resistance\<close>, 0.8 and 0.5 for
  \<^verbatim>\<open>input_validation\<close>, 0.9 and 0.7 for \<^verbatim>\<open>access_control\<close>), and both comparisons are
  strict: the rating is good exactly when the rate is above \<open>hi\<close>, fair exactly when it is
  above \<open>lo\<close> and at most \<open>hi\<close>, poor exactly when it is at most \<open>lo\<close>. A rate equal to
  the good threshold is therefore rated fair, and one equal to the fair threshold poor.
\<close>

theorem rating_boundaries_exclusive:
  assumes "(category, a) \<in> set (security_analysis results)"
  shows "\<exists>hi lo. (category, hi, lo) \<in> {(''ddos_resistance'', 5 / 10, 2 / 10),
            (''input_validation'', 8 / 10, 5 / 10), (''access_control'', 9 / 10, 7 / 10)}
          \<and> (rating a = Good \<longleftrightarrow> hi < rate a)
          \<and> (rating a = Fair \<longleftrightarrow> lo < rate a \<and> rate a \<le> hi)
          \<and> (rating a = Poor \<longleftrightarrow> rate a \<le> lo)"
proof -
  from assms consider
      (d) "(category, a) \<in> set (ddos_resistance results)"
    | (i) "(category, a) \<in> set (input_validation results)"
    | (u) "(category, a) \<in> set (access_control results)"
    by (auto simp: security_analysis_def)
  then show ?thesis
  proof cases
    case d
    from ddos_resistance_entry [OF d] show ?thesis
      by (intro exI [of _ "5 / 10"] exI [of _ "2 / 10"]) (simp add: tier_Good tier_Fair tier_Poor)
  next
    case i
    from input_validation_entry [OF i] show ?thesis
      by (intro exI [of _ "8 / 10"] exI [of _ "5 / 10"]) (simp add: tier_Good tier_Fair tier_Poor)
  next
    case u
    from access_control_entry [OF u] show ?thesis
      by (intro exI [of _ "9 / 10"] exI [of _ "7 / 10"]) (simp add: tier_Good tier_Fair tier_Poor)
  qed
qed

text \<open>
  The theorem at a report with one injection result, 12 of 15 payloads blocked: the entry is
  in the analysis, its rate is the good threshold 0.8 and its rating is fair.
\<close>

theorem rating_boundaries_exclusive_witness:
  "(''input_validation'', \<lparr>rate = 8 / 10, rating = Fair\<rparr>)
     \<in> set (security_analysis [Injection 15 12 3])
   \<and> (\<exists>hi lo. (''input_validation'', hi, lo) \<in> {(''ddos_resistance'', 5 / 10, 2 / 10),
            (''input_validation'', 8 / 10, 5 / 10), (''access_control'', 9 / 10 :: rat, 7 / 10 :: rat)}
          \<and> (Fair = Good \<longleftrightarrow> hi < 8 / 10)
          \<and> (Fair = Fair \<longleftrightarrow> lo < 8 / 10 \<and> 8 / 10 \<le> hi)
          \<and> (Fair = Poor \<longleftrightarrow> 8 / 10 \<le> lo))"
proof -
  have m: "(''input_validation'', \<lparr>rate = 8 / 10, rating = Fair\<rparr>)
      \<in> set (security_analysis [Injection 15 12 3])"
    by (simp add: security_analysis_def ddos_resistance_def input_validation_def
        access_control_def ratio_def tier_def)
  from rating_boundaries_exclusive [OF m] m show ?thesis by simp
qed

text \<open>
  Claim C9 as stated fails: with 12 of 15 payloads blocked the block rate is exactly 0.8 and
  the rating is fair, not good; with 7 of 14 it is exactly 0.5 and the rating is poor, not
  fair.
\<close>

theorem rating_at_threshold_counterexample:
  "map_of (security_analysis [Injection 15 12 3]) ''input_validation''
     = Some \<lparr>rate = 8 / 10, rating = Fair\<rparr>
   \<and> map_of (security_analysis [Injection 14 7 7]) ''input_validation''
     = Some \<lparr>rate = 5 / 10, rating = Poor\<rparr>"
  by (simp add: security_analysis_def ddos_resistance_def input_validation_def
      access_control_def ratio_def tier_def)









subsection \<open>Health samples\<close>

text \<open>
  The loop counts the nodes that answer the probe with status 200, and records for each
  node the length of its neighbour list, or the handler's value when the probe (or taking
  the length) raised.
\<close>

lemma monitor_loop_result:
  "monitor_loop mark h nb ns (healthy, neighbors) = (healthy', neighbors') \<Longrightarrow>
     healthy' = healthy + int (length (filter (\<lambda>n. h n = Status 200) ns))
   \<and> (\<forall>n. map_of neighbors' n =
         (if n \<in> set ns
          then Some (case h n of
                       Unreachable \<Rightarrow> mark
                     | Status code \<Rightarrow> (case nb n of Listed k \<Rightarrow> int k | Unsized \<Rightarrow> mark))
          else map_of neighbors n))"
proof (induction ns arbitrary: healthy neighbors)
  case Nil
  then show ?case by simp
next
  case (Cons m ns)
  show ?case
  proof (cases "h m")
    case Unreachable
    with Cons.prems
    have "monitor_loop mark h nb ns (healthy, AList.update m mark neighbors)
        = (healthy', neighbors')"
      by simp
    from Cons.IH [OF this] Unreachable show ?thesis
      by (auto simp: update_conv')
  next
    case (Status code)
    show ?thesis
    proof (cases "nb m")
      case (Listed k)
      with Status Cons.prems
      have "monitor_loop mark h nb ns
          (if code = 200 then healthy + 1 else healthy, AList.update m (int k) neighbors)
        = (healthy', neighbors')"
        by (simp add: Let_def)
      from Cons.IH [OF this] Status Listed show ?thesis
        by (auto simp: update_conv')
    next
      case Unsized
      with Status Cons.prems
      have "monitor_loop mark h nb ns
          (if code = 200 then healthy + 1 else healthy, AList.update m mark neighbors)
        = (healthy', neighbors')"
        by (simp add: Let_def)
      from Cons.IH [OF this] Status Unsized show ?thesis
        by (auto simp: update_conv')
    qed
  qed
qed

text \<open>
  In the local test a sample is always produced (the function is total: every exception of
  a probe is caught); a node whose probe raises is recorded with -1 neighbours and is not
  among the healthy nodes, which are those that answered with status 200.
\<close>

lemma monitor_network_unreachable:
  assumes "monitor_network e self = (stats, self')"
  shows "(\<forall>n \<in> set (map fst NODES_CONFIG).
            env_health e (length (network_stats self)) n = Unreachable \<longrightarrow>
              map_of (neighbors_count stats) n = Some (- 1))
       \<and> healthy_nodes stats = int (length (filter
            (\<lambda>n. env_health e (length (network_stats self)) n = Status 200)
            (map fst NODES_CONFIG)))
       \<and> total_nodes stats = 5
       \<and> network_stats self' = network_stats self @ [stats]"
proof -
  let ?k = "length (network_stats self)"
  obtain healthy neighbors where l:
    "monitor_loop (- 1) (env_health e ?k) (env_neighbors e ?k) (map fst NODES_CONFIG) (0, [])
       = (healthy, neighbors)"
    by (cases "monitor_loop (- 1) (env_health e ?k) (env_neighbors e ?k)
        (map fst NODES_CONFIG) (0, [])")
  with assms have stats: "stats = \<lparr>total_nodes = int (length NODES_CONFIG),
      healthy_nodes = healthy, neighbors_count = neighbors\<rparr>"
    and self': "self' = self\<lparr>network_stats := network_stats self @ [stats]\<rparr>"
    by (auto simp: monitor_network_def Let_def)
  from monitor_loop_result [OF l] stats self' show ?thesis
    by (simp add: NODES_CONFIG_def)
qed

text \<open>The Docker variant records such a node with 0 neighbours.\<close>

lemma docker_monitor_network_unreachable:
  assumes "docker_monitor_network e stats_so_far = (stats, stats_list)"
  shows "(\<forall>n \<in> set (map fst NODES).
            env_health e (length stats_so_far) n = Unreachable \<longrightarrow>
              map_of (neighbors_count stats) n = Some 0)
       \<and> healthy_nodes stats = int (length (filter
            (\<lambda>n. env_health e (length stats_so_far) n = Status 200) (map fst NODES)))"
proof -
  let ?k = "length stats_so_far"
  obtain healthy neighbors where l:
    "monitor_loop 0 (env_health e ?k) (env_neighbors e ?k) (map fst NODES) (0, [])
       = (healthy, neighbors)"
    by (cases "monitor_loop 0 (env_health e ?k) (env_neighbors e ?k) (map fst NODES) (0, [])")
  with assms have stats: "stats = \<lparr>total_nodes = int (length NODES),
      healthy_nodes = healthy, neighbors_count = neighbors\<rparr>"
    by (auto simp: docker_monitor_network_def Let_def)
  from monitor_loop_result [OF l] stats show ?thesis
    by simp
qed

text \<open>
  Claim C2 on one network, where the genesis node is unreachable and the other four nodes
  answer with status 200 and two neighbours each: both variants count four healthy nodes;
  the local test records the genesis node with -1 neighbours, the Docker variant with 0,
  as it would a reachable node without neighbours.
\<close>

theorem docker_monitor_records_unreachable_as_zero:
  "fst (monitor_network
      \<lparr>env_popen = (\<lambda>n. Some 4321), env_ready = (\<lambda>n. True), env_reaction = (\<lambda>n. Exits),
       env_health = (\<lambda>k n. if n = ''genesis'' then Unreachable else Status 200),
       env_neighbors = (\<lambda>k n. Listed 2), env_api = (\<lambda>n a i. 200)\<rparr> init_tester)
     = \<lparr>total_nodes = 5, healthy_nodes = 4,
        neighbors_count = [(''genesis'', - 1), (''node1'', 2), (''node2'', 2),
                           (''malicious1'', 2), (''malicious2'', 2)]\<rparr>
   \<and> fst (docker_monitor_network
      \<lparr>env_popen = (\<lambda>n. Some 4321), env_ready = (\<lambda>n. True), env_reaction = (\<lambda>n. Exits),
       env_health = (\<lambda>k n. if n = ''genesis'' then Unreachable else Status 200),
       env_neighbors = (\<lambda>k n. Listed 2), env_api = (\<lambda>n a i. 200)\<rparr> [])
     = \<lparr>total_nodes = 5, healthy_nodes = 4,
        neighbors_count = [(''genesis'', 0), (''node1'', 2), (''node2'', 2),
                           (''malicious1'', 2), (''malicious2'', 2)]\<rparr>"
  by (simp add: monitor_network_def docker_monitor_network_def NODES_CONFIG_def NODES_def
      init_tester_def Let_def)

subsection \<open>Flood tallies\<close>

lemma flood_loop_counts:
  "flood_loop codes (s, b, f) =
     (s + int (length (filter (\<lambda>c. c = 200) codes)),
      b + int (length (filter (\<lambda>c. c = 429) codes)),
      f + int (length (filter (\<lambda>c. c \<noteq> 200 \<and> c \<noteq> 429) codes)))"
  by (induction codes arbitrary: s b f) auto

lemma three_way_partition:
  "length (filter (\<lambda>c. c = 200) codes) + length (filter (\<lambda>c. c = 429) codes)
     + length (filter (\<lambda>c. c \<noteq> 200 \<and> c \<noteq> (429::int)) codes) = length codes"
  by (induction codes) auto

text \<open>
  The flood of the local test: the three counts of its event are the numbers of requests
  answered with 200, answered with 429, and all others (a request that raised has the code
  0), and they add up to the twenty requests sent.
\<close>

lemma spam_flooding_event_counts:
  "\<exists>s b f. ev_result (spam_flooding_event responses node_name) = Flood s b f
     \<and> s = int (length (filter (\<lambda>c. c = 200) (map responses [0..<20])))
     \<and> b = int (length (filter (\<lambda>c. c = 429) (map responses [0..<20])))
     \<and> f = int (length (filter (\<lambda>c. c \<noteq> 200 \<and> c \<noteq> 429) (map responses [0..<20])))
     \<and> s + b + f = 20"
proof -
  have "int (length (filter (\<lambda>c. c = 200) (map responses [0..<20])))
      + int (length (filter (\<lambda>c. c = 429) (map responses [0..<20])))
      + int (length (filter (\<lambda>c. c \<noteq> 200 \<and> c \<noteq> 429) (map responses [0..<20])))
      = int (length (map responses [0..<20]))"
    using three_way_partition [of "map responses [0..<20]"] by linarith
  then show ?thesis
    by (simp add: spam_flooding_event_def flood_loop_counts del: upt_Suc)
qed

text \<open>The flood of simple\_malicious\_test.py: every request is a success or a failure.\<close>

lemma flood_request_total:
  "fl_success (flood_request a r) + fl_failed (flood_request a r)
     = fl_success r + fl_failed r + 1"
  by (cases a) (simp_all add: Let_def)

lemma fold_flood_request_total:
  "fl_success (fold flood_request answers r) + fl_failed (fold flood_request answers r)
     = fl_success r + fl_failed r + int (length answers)"
proof (induction answers arbitrary: r)
  case Nil
  then show ?case by simp
next
  case (Cons a answers)
  from Cons [of "flood_request a r"] flood_request_total [of a r] show ?case by simp
qed

lemma perform_flood_attack_total:
  "fl_success (perform_flood_attack replies) + fl_failed (perform_flood_attack replies) = 50"
  by (simp add: perform_flood_attack_def fold_flood_request_total del: upt_Suc)

text \<open>
  The flood of malicious\_attack\_demo.py: every request is counted once by its worker, and
  once more as failed when the main thread's wait for it timed out.
\<close>

lemma ddos_step_total:
  "\<exists>sent' successful' failed'.
     await_result timed_out (send_flood_request answer (DDoS sent successful failed))
       = DDoS sent' successful' failed'
     \<and> successful' + failed' = successful + failed + 1 + (if timed_out then 1 else 0)"
  by (cases answer; cases timed_out) auto

lemma ddos_fold_total:
  "\<exists>sent' successful' failed'.
     fold (\<lambda>(answer, timed_out) r. await_result timed_out (send_flood_request answer r))
       requests (DDoS sent successful failed) = DDoS sent' successful' failed'
     \<and> successful' + failed'
         = successful + failed + int (length requests) + int (length (filter snd requests))"
proof (induction requests arbitrary: sent successful failed)
  case Nil
  then show ?case by simp
next
  case (Cons q requests)
  obtain answer timed_out where q: "q = (answer, timed_out)" by (cases q)
  from ddos_step_total [of timed_out answer sent successful failed]
  obtain s1 a1 f1 where 1:
    "await_result timed_out (send_flood_request answer (DDoS sent successful failed))
       = DDoS s1 a1 f1"
    "a1 + f1 = successful + failed + 1 + (if timed_out then 1 else 0)"
    by blast
  from Cons [of s1 a1 f1] obtain s2 a2 f2 where 2:
    "fold (\<lambda>(answer, timed_out) r. await_result timed_out (send_flood_request answer r))
       requests (DDoS s1 a1 f1) = DDoS s2 a2 f2"
    "a2 + f2 = a1 + f1 + int (length requests) + int (length (filter snd requests))"
    by blast
  from 1 2 q show ?case by auto
qed

lemma attack_1_ddos_simulation_total:
  "\<exists>sent successful failed.
     attack_1_ddos_simulation requests = DDoS sent successful failed
     \<and> successful + failed
         = 100 + int (length (filter snd (map requests [0..<100])))"
  using ddos_fold_total [of "map requests [0..<100]" 0 0 0]
  by (simp add: attack_1_ddos_simulation_def del: upt_Suc)


text \<open>
  Claim C4 on one flood of malicious\_attack\_demo.py: all hundred requests are answered
  with status 200, and the first takes longer than the second that the main thread waits
  for it. The result holds 100 successful and 1 failed request: 101 for a burst of 100.
\<close>

theorem ddos_simulation_counts_a_request_twice:
  "attack_1_ddos_simulation (\<lambda>i. (Reply 200, i = 0)) = DDoS 100 100 1"
  by code_simp

subsection \<open>Requests that fail in transport\<close>

lemma fold_inject_counts:
  "fold inject answers (Injection tested blocked successful) =
     Injection
       (tested + int (length (filter (\<lambda>a. \<exists>code. a = Reply code) answers)))
       (blocked + int (length (filter
          (\<lambda>a. a = Timeout \<or> (\<exists>code. a = Reply code \<and> code \<in> {400, 401, 403, 422, 429}))
          answers)))
       (successful + int (length (filter (\<lambda>a. a = Reply 200) answers)))"
proof (induction answers arbitrary: tested blocked successful)
  case Nil
  then show ?case by simp
next
  case (Cons a answers)
  show ?case
  proof (cases a)
    case (Reply code)
    with Cons [of "tested + 1" "blocked + 1" successful]
      Cons [of "tested + 1" blocked "successful + 1"]
      Cons [of "tested + 1" blocked successful]
    show ?thesis by auto
  next
    case Timeout
    with Cons [of tested "blocked + 1" successful] show ?thesis by simp
  next
    case ConnectionError
    with Cons [of tested blocked successful] show ?thesis by simp
  qed
qed

text \<open>
  Claim C6, as the code has it. In the flood of the local test a request that fails in
  transport (code 0) is tallied as errored and not as blocked: the blocked count is the
  number of answers 429, and the error count the number of codes other than 200 and 429.
  In the injection attack of malicious\_attack\_demo.py a timeout is counted as blocked,
  with the answers 400, 401, 403, 422 and 429, and no error is tallied; any other exception
  changes no counter.
\<close>

theorem transport_errors_tally:
  "(\<exists>s b f. ev_result (spam_flooding_event responses node_name) = Flood s b f
      \<and> b = int (length (filter (\<lambda>c. c = 429) (map responses [0..<20])))
      \<and> f = int (length (filter (\<lambda>c. c \<noteq> 200 \<and> c \<noteq> 429) (map responses [0..<20]))))
   \<and> attack_2_malformed_data replies =
       Injection
         (int (length (filter (\<lambda>a. \<exists>code. a = Reply code) (map replies [0..<15]))))
         (int (length (filter
            (\<lambda>a. a = Timeout \<or> (\<exists>code. a = Reply code \<and> code \<in> {400, 401, 403, 422, 429}))
            (map replies [0..<15]))))
         (int (length (filter (\<lambda>a. a = Reply 200) (map replies [0..<15]))))"
proof -
  from spam_flooding_event_counts [of responses node_name]
  have "\<exists>s b f. ev_result (spam_flooding_event responses node_name) = Flood s b f
      \<and> b = int (length (filter (\<lambda>c. c = 429) (map responses [0..<20])))
      \<and> f = int (length (filter (\<lambda>c. c \<noteq> 200 \<and> c \<noteq> 429) (map responses [0..<20])))"
    by blast
  moreover have "attack_2_malformed_data replies =
       Injection
         (int (length (filter (\<lambda>a. \<exists>code. a = Reply code) (map replies [0..<15]))))
         (int (length (filter
            (\<lambda>a. a = Timeout \<or> (\<exists>code. a = Reply code \<and> code \<in> {400, 401, 403, 422, 429}))
            (map replies [0..<15]))))
         (int (length (filter (\<lambda>a. a = Reply 200) (map replies [0..<15]))))"
    unfolding attack_2_malformed_data_def
    using fold_inject_counts [of "map replies [0..<15]" 0 0 0] by simp
  ultimately show ?thesis by blast
qed

text \<open>
  The theorem on a flood whose requests all fail in transport, and on an injection attack
  whose requests all time out.
\<close>

theorem transport_errors_tally_witness:
  "ev_result (spam_flooding_event (\<lambda>i. 0) ''malicious1'') = Flood 0 0 20
   \<and> attack_2_malformed_data (\<lambda>i. Timeout) = Injection 0 15 0"
proof -
  have "ev_result (spam_flooding_event (\<lambda>i. 0) ''malicious1'') = Flood 0 0 20"
    by code_simp
  moreover have "attack_2_malformed_data (\<lambda>i. Timeout) = Injection 0 15 0"
    using transport_errors_tally [of "\<lambda>i. 0" "''malicious1''" "\<lambda>i. Timeout"]
    by (simp del: upt_Suc)
  ultimately show ?thesis by blast
qed

text \<open>
  Claim C6 as stated fails. A flood whose twenty requests all fail in transport records no
  blocked request (and the response code 200); an injection attack whose fifteen requests
  are all refused records nothing, neither blocked nor errored; one whose requests all time
  out records fifteen blocked requests and has no tally of errors.
\<close>

theorem transport_errors_counterexample:
  "spam_flooding_event (\<lambda>i. 0) ''malicious1''
     = \<lparr>ev_node = ''malicious1'', ev_attack_type = ''spam_flooding'',
        ev_result = Flood 0 0 20, ev_response_code = 200\<rparr>
   \<and> attack_2_malformed_data (\<lambda>i. ConnectionError) = Injection 0 0 0
   \<and> attack_2_malformed_data (\<lambda>i. Timeout) = Injection 0 15 0"
  by code_simp

subsection \<open>Order of starting and stopping\<close>













text \<open>
  The same run of malicious\_node\_test.py without the interrupt: stage 5 stops the three
  nodes in the reverse of the order of starting, and the report is written.
\<close>

lemma uninterrupted_run_reverse_order:
  "map_option (\<lambda>(code, s). (code, start_order (trace s), stop_order (trace s), report_written s))
     (mnt_run_test (\<lambda>p. False)
        \<lparr>env_popen = (\<lambda>n. Some 4321), env_ready = (\<lambda>n. True), env_reaction = (\<lambda>n. Exits),
         env_health = (\<lambda>k n. Status 200), env_neighbors = (\<lambda>k n. Listed 2),
         env_api = (\<lambda>n a i. 200)\<rparr> 2 3 False init_manager)
     = Some (0, [''node00'', ''node01'', ''node02''], [''node02'', ''node01'', ''node00''], True)"
  by code_simp


subsection \<open>The interrupted run of malicious\_node\_test.py\<close>

lemma stop_node_report: "report_written (snd (snd (stop_node react self node))) = report_written self"
  by (cases "react (node_id node)") (simp_all add: stop_node_def)

lemma stop_nodes_report: "report_written (snd (stop_nodes react self ns)) = report_written self"
proof (induction ns arbitrary: self)
  case Nil
  then show ?case by simp
next
  case (Cons n ns)
  obtain ok n' s where step: "stop_node react self n = (ok, n', s)"
    by (cases "stop_node react self n")
  obtain rest' s' where rest: "stop_nodes react s ns = (rest', s')"
    by (cases "stop_nodes react s ns")
  from Cons [of s] stop_node_report [of react self n] step rest
  show ?case by simp
qed

lemma cleanup_report: "report_written (cleanup react self) = report_written self"
proof -
  obtain st s where r: "stop_nodes react self (map snd (nodes self)) = (st, s)"
    by (cases "stop_nodes react self (map snd (nodes self))")
  with stop_nodes_report [of react self "map snd (nodes self)"] show ?thesis
    by (simp add: cleanup_def)
qed

lemma create_and_start_report:
  assumes "create_and_start h e self i g m = Some (Inr (r, s))"
  shows "report_written s = report_written self"
proof -
  from assms obtain n0 s0 where c: "create_node h self i g m = Some (Inr (n0, s0))"
    by (auto simp: create_and_start_def split: option.splits sum.splits)
  then have "report_written s0 = report_written self"
    by (auto simp: create_node_def Let_def split: option.splits list.splits)
  with assms c show ?thesis
    by (cases "env_popen e (node_id n0)")
      (auto simp: create_and_start_def mnt_start_node_def Let_def split: if_splits)
qed

lemma create_and_start_raises:
  "create_and_start h e self i g m = Some (Inl (err, s)) \<Longrightarrow> s = self"
  by (auto simp: create_and_start_def split: option.splits sum.splits prod.splits)

lemma expand_report:
  "expand h e idxs node_list self = Some r \<Longrightarrow>
     report_written (case r of Inl (err, s) \<Rightarrow> s | Inr (node_list', s) \<Rightarrow> s) = report_written self"
proof (induction idxs arbitrary: node_list self)
  case Nil
  then show ?case by auto
next
  case (Cons i idxs)
  show ?case
  proof (cases "create_and_start h e self i False (i \<in> {2, 7})")
    case None
    with Cons.prems show ?thesis by simp
  next
    case (Some c)
    show ?thesis
    proof (cases c)
      case (Inl raised)
      obtain err s where "raised = (err, s)" by (cases raised)
      with Some Inl Cons.prems create_and_start_raises [of h e self i False "i \<in> {2, 7}" err s]
      show ?thesis by auto
    next
      case (Inr v)
      obtain ok node s where v: "v = ((ok, node), s)" by (cases v) auto
      with Some Inr Cons.prems
      have "expand h e idxs (if ok then node_list @ [node] else node_list) s = Some r"
        by simp
      from Cons.IH [OF this] create_and_start_report [of h e self i False "i \<in> {2, 7}" "(ok, node)" s]
        Some Inr v
      show ?thesis by simp
    qed
  qed
qed

text \<open>
  An interrupted run of malicious\_node\_test.py that ends has written no report: the
  handler calls \<^verbatim>\<open>cleanup\<close> and exits.
\<close>

lemma mnt_interrupted_run_no_report:
  assumes "mnt_run_test h e initial_nodes max_nodes True init_manager = Some (code, s)"
  shows "\<not> report_written s"
proof -
  have 0: "\<not> report_written init_manager" by (simp add: init_manager_def)
  have 1: "report_written (case r of Inl (err, s) \<Rightarrow> s | Inr (g, s) \<Rightarrow> s) = report_written self"
    if "mnt_stage_1_genesis h e self = Some r" for r self
    using that create_and_start_report [of h e self 0 True False]
      create_and_start_raises [of h e self 0 True False]
    by (auto simp: mnt_stage_1_genesis_def split: option.splits sum.splits prod.splits if_splits)
  have 2: "report_written (case r of Inl (err, s) \<Rightarrow> s | Inr (nl, s) \<Rightarrow> s) = report_written self"
    if "stage_2_expand_to_10 h e initial_nodes self g = Some r" for r self g
    using that expand_report [of h e "[1..initial_nodes - 1]" "[g]" self]
    by (auto simp: stage_2_expand_to_10_def split: option.splits sum.splits prod.splits)
  have 3: "report_written (case r of Inl (err, s) \<Rightarrow> s | Inr (nl, s) \<Rightarrow> s) = report_written self"
    if "stage_3_expand_to_20 h e max_nodes self nl0 = Some r" for r self nl0
    using that expand_report [of h e "[int (length nl0)..max_nodes - 1]" nl0 self]
    by (auto simp: stage_3_expand_to_20_def split: option.splits sum.splits prod.splits if_splits)
  from assms show ?thesis
    unfolding mnt_run_test_def
    by (auto simp: cleanup_report split: option.splits sum.splits prod.splits
        dest!: 1 2 3 simp: 0)
qed


end
